theory Spec2Isabelle
  imports Main "HOL-Library.AList"
begin

section \<open>Data model (shared/schema.ts and the interfaces of storage.ts)\<close>

text \<open>
  Row types of the schema, one record per table.  Every field carries a prefix naming its
  record, since several tables share the column names \<open>id\<close>, \<open>busId\<close> and \<open>seatNumber\<close>.
  Serial ids and foreign keys are natural numbers (the counters start at 1 and only grow);
  other integer columns are \<open>int\<close>, because \<open>availableSeats\<close> is decremented without a
  lower bound.  Nullable columns are options.
\<close>

record city =
  city_id :: nat
  city_name :: string

record bus =
  bus_id :: nat
  bus_name :: string
  bus_type :: string
  bus_fromCityId :: nat
  bus_toCityId :: nat
  bus_departureTime :: string
  bus_arrivalTime :: string
  bus_duration :: string
  bus_price :: int
  bus_totalSeats :: int
  bus_amenities :: "string list option"
  bus_rating :: "int option"
  bus_reviewCount :: "int option"

text \<open>\<open>interface BusWithCities extends Bus\<close>\<close>

record busWithCities = bus +
  bwc_fromCity :: city
  bwc_toCity :: city

record seatLayout =
  sl_id :: nat
  sl_busId :: nat
  sl_seatNumber :: string
  sl_rowPosition :: int
  sl_columnPosition :: int
  sl_isVisible :: bool

text \<open>\<open>InsertBooking\<close>: the picked columns of a booking, before id and date are assigned.\<close>

record insertBooking =
  ib_userId :: nat
  ib_busId :: nat
  ib_travelDate :: string
  ib_status :: string
  ib_totalAmount :: int
  ib_paymentStatus :: string

text \<open>\<open>bookingDate\<close> is a timestamp; it is kept as the number the clock returned.\<close>

record booking =
  bk_id :: nat
  bk_userId :: nat
  bk_busId :: nat
  bk_travelDate :: string
  bk_bookingDate :: nat
  bk_status :: string
  bk_totalAmount :: int
  bk_paymentStatus :: string

record bookingDetail =
  bd_id :: nat
  bd_bookingId :: nat
  bd_seatNumber :: string

record trip =
  trip_id :: nat
  trip_busId :: nat
  trip_date :: string
  trip_availableSeats :: int

record tripSeatAvailability =
  tsa_tripId :: nat
  tsa_seatNumber :: string
  tsa_isAvailable :: bool

text \<open>\<open>interface SeatAvailability\<close>: one element of the answer of an availability query.\<close>

record seatAvailability =
  sa_seatNumber :: string
  sa_isAvailable :: bool
  sa_rowPosition :: int
  sa_columnPosition :: int
  sa_isVisible :: bool

text \<open>\<open>interface BookingWithDetails extends Booking\<close>\<close>

record bookingWithDetails = booking +
  bwd_bus :: busWithCities
  bwd_fromCity :: city
  bwd_toCity :: city
  bwd_seats :: "string list"

text \<open>
  A JavaScript \<open>Map\<close> iterates in insertion order, and \<open>set\<close> on a present key keeps the
  key's position.  An association list with \<open>AList.update\<close> (replace in place, else append)
  is exactly that; \<open>map_of\<close> is \<open>get\<close> and \<open>map snd\<close> is \<open>Array.from(m.values())\<close>.
\<close>

type_synonym ('k, 'v) jsmap = "('k \<times> 'v) list"

definition values_of :: "('k, 'v) jsmap \<Rightarrow> 'v list" where
  "values_of m = map snd m"

text \<open>
  The fields of \<open>class MemStorage\<close>.  The user table and its counter take no part in seat
  inventory and are left out.
\<close>

record memStorage =
  cities :: "(nat, city) jsmap"
  buses :: "(nat, bus) jsmap"
  seatLayouts :: "(nat, seatLayout) jsmap"
  bookings :: "(nat, booking) jsmap"
  bookingDetails :: "(nat, bookingDetail) jsmap"
  trips :: "(nat, trip) jsmap"
  tripSeatAvailability :: "(string, tripSeatAvailability) jsmap"
  cityIdCounter :: nat
  busIdCounter :: nat
  seatLayoutIdCounter :: nat
  bookingIdCounter :: nat
  bookingDetailIdCounter :: nat
  tripIdCounter :: nat

text \<open>Every \<open>throw new Error(...)\<close> of storage.ts, with the number its message carries.\<close>

datatype error =
    CityNotFoundForBus nat
  | BusNotFoundWithId nat
  | BookingNotFoundWithId nat
  | BusNotFoundForBooking nat

section \<open>Operations of MemStorage\<close>

subsection \<open>Keys of the seat-availability map\<close>

text \<open>
  The key is the template string \<open>`${trip.id}-${seat.seatNumber}`\<close>: the decimal numeral of
  the trip id, a hyphen, and the seat number.
\<close>

definition digit_char :: "nat \<Rightarrow> char" where
  "digit_char d = char_of (48 + d)"

function showNat :: "nat \<Rightarrow> string" where
  "showNat n = (if n < 10 then [digit_char n] else showNat (n div 10) @ [digit_char (n mod 10)])"
  by pat_completeness auto
termination
  by (relation "measure id") auto

declare showNat.simps [simp del]

definition seatKey :: "nat \<Rightarrow> string \<Rightarrow> string" where
  "seatKey tripId seatNumber = showNat tripId @ ''-'' @ seatNumber"

subsection \<open>Buses and layouts\<close>

definition getBus :: "memStorage \<Rightarrow> nat \<Rightarrow> error + busWithCities option" where
  "getBus s i =
     (case map_of (buses s) i of
        None \<Rightarrow> Inr None
      | Some b \<Rightarrow>
          (case map_of (cities s) (bus_fromCityId b) of
             None \<Rightarrow> Inl (CityNotFoundForBus (bus_id b))
           | Some fromCity \<Rightarrow>
               (case map_of (cities s) (bus_toCityId b) of
                  None \<Rightarrow> Inl (CityNotFoundForBus (bus_id b))
                | Some toCity \<Rightarrow>
                    Inr (Some (bus.extend b
                      (busWithCities.fields fromCity toCity))))))"

definition getBusSeatLayout :: "memStorage \<Rightarrow> nat \<Rightarrow> seatLayout list" where
  "getBusSeatLayout s busId = filter (\<lambda>l. sl_busId l = busId) (values_of (seatLayouts s))"

subsection \<open>Seat availability\<close>

definition findTrip :: "memStorage \<Rightarrow> nat \<Rightarrow> string \<Rightarrow> trip option" where
  "findTrip s busId date =
     List.find (\<lambda>t. trip_busId t = busId \<and> trip_date t = date) (values_of (trips s))"

text \<open>The loop \<open>for (const seat of ...) this.tripSeatAvailability.set(key, {...})\<close>.\<close>

fun setSeats :: "nat \<Rightarrow> bool \<Rightarrow> string list \<Rightarrow> (string, tripSeatAvailability) jsmap
    \<Rightarrow> (string, tripSeatAvailability) jsmap" where
  "setSeats tripId avail [] m = m"
| "setSeats tripId avail (n # ns) m =
     setSeats tripId avail ns
       (AList.update (seatKey tripId n)
          \<lparr>tsa_tripId = tripId, tsa_seatNumber = n, tsa_isAvailable = avail\<rparr> m)"

text \<open>The set \<open>bookedSeats\<close>: seat numbers of the details of every confirmed booking of the
  bus on the date, in iteration order.\<close>

definition detailsOf :: "memStorage \<Rightarrow> nat \<Rightarrow> bookingDetail list" where
  "detailsOf s bookingId =
     filter (\<lambda>d. bd_bookingId d = bookingId) (values_of (bookingDetails s))"

definition bookedSeats :: "memStorage \<Rightarrow> nat \<Rightarrow> string \<Rightarrow> string list" where
  "bookedSeats s busId date =
     concat (map (\<lambda>b. map bd_seatNumber (detailsOf s (bk_id b)))
       (filter (\<lambda>b. bk_busId b = busId \<and> bk_travelDate b = date \<and> bk_status b = ''confirmed'')
          (values_of (bookings s))))"

definition seatResponse :: "memStorage \<Rightarrow> trip \<Rightarrow> string list \<Rightarrow> seatLayout \<Rightarrow> seatAvailability" where
  "seatResponse s t booked seat =
     \<lparr>sa_seatNumber = sl_seatNumber seat,
      sa_isAvailable =
        ((case map_of (tripSeatAvailability s) (seatKey (trip_id t) (sl_seatNumber seat)) of
            None \<Rightarrow> True
          | Some a \<Rightarrow> tsa_isAvailable a)
         \<and> sl_seatNumber seat \<notin> set booked),
      sa_rowPosition = sl_rowPosition seat,
      sa_columnPosition = sl_columnPosition seat,
      sa_isVisible = sl_isVisible seat\<rparr>"

text \<open>
  \<open>getSeatAvailability\<close> returns the store too, since the first query for a bus and date
  creates the trip.  Calls are taken one at a time: the function awaits \<open>getBusSeatLayout\<close>
  and \<open>getBus\<close> between looking for the trip and creating it, and calls started in the same
  tick and interleaved at those points are not described by this function.
\<close>

definition getSeatAvailability ::
    "memStorage \<Rightarrow> nat \<Rightarrow> string \<Rightarrow> memStorage \<times> (error + seatAvailability list)" where
  "getSeatAvailability s busId date =
     (let layout = getBusSeatLayout s busId in
      case findTrip s busId date of
        Some t \<Rightarrow>
          (s, Inr (map (seatResponse s t (bookedSeats s busId date)) layout))
      | None \<Rightarrow>
          (case getBus s busId of
             Inl e \<Rightarrow> (s, Inl e)
           | Inr None \<Rightarrow> (s, Inl (BusNotFoundWithId busId))
           | Inr (Some b) \<Rightarrow>
               (let tripId = tripIdCounter s;
                    t = \<lparr>trip_id = tripId, trip_busId = busId, trip_date = date,
                         trip_availableSeats = bus_totalSeats b\<rparr>;
                    s' = s\<lparr>tripIdCounter := tripId + 1,
                           trips := AList.update tripId t (trips s),
                           tripSeatAvailability :=
                             setSeats tripId True (map sl_seatNumber layout)
                               (tripSeatAvailability s)\<rparr>
                in (s', Inr (map (seatResponse s' t (bookedSeats s' busId date)) layout)))))"

text \<open>What a caller observes: the answer of an availability query (empty if it throws), the
  flags it reports for one seat number, and the number of seats it reports available.
  \<open>counters\<close> lists the stored \<open>availableSeats\<close> of all trips.\<close>

definition reportedSeats :: "memStorage \<Rightarrow> nat \<Rightarrow> string \<Rightarrow> seatAvailability list" where
  "reportedSeats s busId date =
     (case snd (getSeatAvailability s busId date) of Inl e \<Rightarrow> [] | Inr l \<Rightarrow> l)"

definition seatStatus :: "memStorage \<Rightarrow> nat \<Rightarrow> string \<Rightarrow> string \<Rightarrow> bool list" where
  "seatStatus s busId date n =
     map sa_isAvailable (filter (\<lambda>a. sa_seatNumber a = n) (reportedSeats s busId date))"

definition availableCount :: "memStorage \<Rightarrow> nat \<Rightarrow> string \<Rightarrow> int" where
  "availableCount s busId date = int (length (filter sa_isAvailable (reportedSeats s busId date)))"

definition counters :: "memStorage \<Rightarrow> int list" where
  "counters s = map trip_availableSeats (values_of (trips s))"



subsection \<open>Bookings\<close>

definition getBookingWithDetails :: "memStorage \<Rightarrow> booking \<Rightarrow> error + bookingWithDetails" where
  "getBookingWithDetails s b =
     (case getBus s (bk_busId b) of
        Inl e \<Rightarrow> Inl e
      | Inr None \<Rightarrow> Inl (BusNotFoundForBooking (bk_id b))
      | Inr (Some bwc) \<Rightarrow>
          Inr (booking.extend b
            (bookingWithDetails.fields bwc (bwc_fromCity bwc) (bwc_toCity bwc)
               (map bd_seatNumber (detailsOf s (bk_id b))))))"

text \<open>The loop creating one detail per requested seat; it returns the map and the counter.\<close>

fun addDetails :: "nat \<Rightarrow> string list \<Rightarrow> (nat, bookingDetail) jsmap \<times> nat
    \<Rightarrow> (nat, bookingDetail) jsmap \<times> nat" where
  "addDetails bookingId [] (m, c) = (m, c)"
| "addDetails bookingId (n # ns) (m, c) =
     addDetails bookingId ns
       (AList.update c \<lparr>bd_id = c, bd_bookingId = bookingId, bd_seatNumber = n\<rparr> m, c + 1)"

text \<open>
  \<open>createBooking\<close> stores the booking and its details, adjusts the trip if one exists, and
  only then builds the answer, which can throw: the store comes back changed either way.
  \<open>now\<close> is the value of \<open>new Date()\<close>.  The trip object found is changed in place and
  set again under \<open>trip.id\<close>; every trip is stored under its own id, so this is the update
  of that key.  All writes happen before the first \<open>await\<close>, so a call is one step.
\<close>

definition createBooking ::
    "memStorage \<Rightarrow> nat \<Rightarrow> insertBooking \<Rightarrow> string list
      \<Rightarrow> memStorage \<times> (error + bookingWithDetails)" where
  "createBooking s now ib seats =
     (let i = bookingIdCounter s;
          b = \<lparr>bk_id = i, bk_userId = ib_userId ib, bk_busId = ib_busId ib,
               bk_travelDate = ib_travelDate ib, bk_bookingDate = now,
               bk_status = ib_status ib, bk_totalAmount = ib_totalAmount ib,
               bk_paymentStatus = ib_paymentStatus ib\<rparr>;
          s1 = s\<lparr>bookingIdCounter := i + 1, bookings := AList.update i b (bookings s)\<rparr>;
          (ds, c) = addDetails i seats (bookingDetails s1, bookingDetailIdCounter s1);
          s2 = s1\<lparr>bookingDetails := ds, bookingDetailIdCounter := c\<rparr>;
          s3 = (case findTrip s2 (bk_busId b) (bk_travelDate b) of
                  None \<Rightarrow> s2
                | Some t \<Rightarrow>
                    s2\<lparr>trips := AList.update (trip_id t)
                                  (t\<lparr>trip_availableSeats :=
                                       trip_availableSeats t - int (length seats)\<rparr>) (trips s2),
                       tripSeatAvailability :=
                         setSeats (trip_id t) False seats (tripSeatAvailability s2)\<rparr>)
      in (s3, getBookingWithDetails s3 b))"

definition cancelBooking ::
    "memStorage \<Rightarrow> nat \<Rightarrow> memStorage \<times> (error + bookingWithDetails)" where
  "cancelBooking s i =
     (case map_of (bookings s) i of
        None \<Rightarrow> (s, Inl (BookingNotFoundWithId i))
      | Some b0 \<Rightarrow>
          (let b = b0\<lparr>bk_status := ''cancelled''\<rparr>;
               s1 = s\<lparr>bookings := AList.update i b (bookings s)\<rparr>;
               details = detailsOf s1 (bk_id b);
               s2 = (case findTrip s1 (bk_busId b) (bk_travelDate b) of
                       None \<Rightarrow> s1
                     | Some t \<Rightarrow>
                         s1\<lparr>trips := AList.update (trip_id t)
                                       (t\<lparr>trip_availableSeats :=
                                            trip_availableSeats t + int (length details)\<rparr>)
                                       (trips s1),
                            tripSeatAvailability :=
                              setSeats (trip_id t) True (map bd_seatNumber details)
                                (tripSeatAvailability s1)\<rparr>)
           in (s2, getBookingWithDetails s2 b)))"

subsection \<open>Catalogue operations and the seeded store\<close>

definition createCity :: "memStorage \<Rightarrow> string \<Rightarrow> memStorage \<times> city" where
  "createCity s name =
     (let i = cityIdCounter s; c = \<lparr>city_id = i, city_name = name\<rparr>
      in (s\<lparr>cityIdCounter := i + 1, cities := AList.update i c (cities s)\<rparr>, c))"

definition createSeatLayout ::
    "memStorage \<Rightarrow> nat \<Rightarrow> string \<Rightarrow> int \<Rightarrow> int \<Rightarrow> bool \<Rightarrow> memStorage \<times> seatLayout" where
  "createSeatLayout s busId seatNumber row col visible =
     (let i = seatLayoutIdCounter s;
          l = \<lparr>sl_id = i, sl_busId = busId, sl_seatNumber = seatNumber,
               sl_rowPosition = row, sl_columnPosition = col, sl_isVisible = visible\<rparr>
      in (s\<lparr>seatLayoutIdCounter := i + 1, seatLayouts := AList.update i l (seatLayouts s)\<rparr>, l))"

text \<open>
  The body of the inner loop of \<open>createDefaultSeatLayout\<close> for one \<open>(row, col)\<close>: the seat
  number and visibility it passes to \<open>createSeatLayout\<close>, or nothing where it skips the aisle.
  \<open>String.fromCharCode(65 + k)\<close> is the letter with code \<open>65 + k\<close>.
\<close>

definition defaultSeat :: "nat \<Rightarrow> nat \<Rightarrow> (string \<times> bool) option" where
  "defaultSeat row col =
     (if row = 6 then Some (showNat row @ [char_of (65 + col)], True)
      else if col = 2 then None
      else Some
        (if col > 2 then showNat row @ [char_of (65 + col - 1)]
         else showNat row @ [char_of (65 + col)],
         \<not> ((row = 1 \<and> (col = 2 \<or> col = 3)) \<or> (row = 3 \<and> col = 0)
             \<or> (row = 4 \<and> (col = 0 \<or> col = 1)))))"

definition defaultPositions :: "(nat \<times> nat) list" where
  "defaultPositions =
     concat (map (\<lambda>row. map (\<lambda>col. (row, col)) [0 ..< (if row = 6 then 5 else 4)]) [1 ..< 7])"

definition createDefaultSeatLayout :: "memStorage \<Rightarrow> nat \<Rightarrow> memStorage" where
  "createDefaultSeatLayout s busId =
     foldl (\<lambda>s' (row, col).
              case defaultSeat row col of
                None \<Rightarrow> s'
              | Some (n, v) \<Rightarrow> fst (createSeatLayout s' busId n (int row) (int col) v))
       s defaultPositions"

text \<open>\<open>InsertBus\<close> is a bus row whose id is still to be assigned; the id given is ignored.\<close>

definition createBus :: "memStorage \<Rightarrow> bus \<Rightarrow> memStorage \<times> bus" where
  "createBus s ins =
     (let i = busIdCounter s; b = ins\<lparr>bus_id := i\<rparr>;
          s1 = s\<lparr>busIdCounter := i + 1, buses := AList.update i b (buses s)\<rparr>
      in (createDefaultSeatLayout s1 i, b))"

definition emptyStorage :: memStorage where
  "emptyStorage =
     \<lparr>cities = [], buses = [], seatLayouts = [], bookings = [], bookingDetails = [],
      trips = [], tripSeatAvailability = [],
      cityIdCounter = 1, busIdCounter = 1, seatLayoutIdCounter = 1, bookingIdCounter = 1,
      bookingDetailIdCounter = 1, tripIdCounter = 1\<rparr>"

definition mkBus :: "string \<Rightarrow> string \<Rightarrow> nat \<Rightarrow> nat \<Rightarrow> string \<Rightarrow> string \<Rightarrow> string \<Rightarrow> int \<Rightarrow> int
    \<Rightarrow> string list \<Rightarrow> int \<Rightarrow> int \<Rightarrow> bus" where
  "mkBus name type fromId toId dep arr dur price seatsTotal amen rating reviews =
     \<lparr>bus_id = 0, bus_name = name, bus_type = type, bus_fromCityId = fromId, bus_toCityId = toId,
      bus_departureTime = dep, bus_arrivalTime = arr, bus_duration = dur, bus_price = price,
      bus_totalSeats = seatsTotal, bus_amenities = Some amen, bus_rating = Some rating,
      bus_reviewCount = Some reviews\<rparr>"

text \<open>
  \<open>seedData\<close>, started by the constructor on the empty store.  It awaits only promises that
  are already resolved, so it has finished before the first request is served;
  \<open>newMemStorage\<close> is the store every request sequence starts from.
\<close>

definition seedData :: "memStorage \<Rightarrow> memStorage" where
  "seedData s0 =
     (let (s1, bangalore) = createCity s0 ''Bangalore, Karnataka'';
          (s2, hyderabad) = createCity s1 ''Hyderabad, Telangana'';
          (s3, chennai) = createCity s2 ''Chennai, Tamil Nadu'';
          (s4, mumbai) = createCity s3 ''Mumbai, Maharashtra'';
          (s5, vijayawada) = createCity s4 ''Vijayawada, Andhra Pradesh'';
          s6 = fst (createBus s5 (mkBus ''Karnataka Express'' ''Luxury''
                 (city_id bangalore) (city_id hyderabad) ''07:30'' ''14:15'' ''6h 45m'' 4500 30
                 [''wifi'', ''ac'', ''refreshments''] 450 120));
          s7 = fst (createBus s6 (mkBus ''Telangana Travels'' ''Standard''
                 (city_id bangalore) (city_id hyderabad) ''09:00'' ''16:30'' ''7h 30m'' 2850 40
                 [''ac''] 310 85));
          s8 = fst (createBus s7 (mkBus ''Tamil Nadu Superfast'' ''Luxury''
                 (city_id chennai) (city_id bangalore) ''08:00'' ''14:30'' ''6h 30m'' 5200 25
                 [''wifi'', ''ac'', ''refreshments'', ''entertainment''] 470 95));
          s9 = fst (createBus s8 (mkBus ''Maharashtra Travels'' ''Standard''
                 (city_id mumbai) (city_id hyderabad) ''18:00'' ''08:30'' ''14h 30m'' 8500 35
                 [''wifi'', ''ac'', ''refreshments''] 390 42))
      in fst (createBus s9 (mkBus ''Andhra Pradesh Express'' ''Luxury''
                 (city_id vijayawada) (city_id bangalore) ''19:30'' ''05:45'' ''10h 15m'' 9900 22
                 [''wifi'', ''ac'', ''refreshments'', ''entertainment'', ''sleeper''] 480 65)))"

definition newMemStorage :: memStorage where
  "newMemStorage = seedData emptyStorage"

section \<open>Well-formed stores and sample stores\<close>

text \<open>
  What the maps of a store satisfy by construction: a \<open>Map\<close> holds a key once, every trip and
  booking sits under its own id, ids are below the counter that hands them out, a detail
  refers to a booking id already handed out, and a \<open>(bus, date)\<close> pair has at most one trip.
\<close>

definition storeInv :: "memStorage \<Rightarrow> bool" where
  "storeInv s \<longleftrightarrow>
     distinct (map fst (trips s)) \<and>
     (\<forall>(k, t) \<in> set (trips s). trip_id t = k \<and> k < tripIdCounter s) \<and>
     distinct (map (\<lambda>t. (trip_busId t, trip_date t)) (values_of (trips s))) \<and>
     distinct (map fst (bookings s)) \<and>
     (\<forall>(k, b) \<in> set (bookings s). bk_id b = k \<and> k < bookingIdCounter s) \<and>
     distinct (map fst (bookingDetails s)) \<and>
     (\<forall>(k, d) \<in> set (bookingDetails s).
        k < bookingDetailIdCounter s \<and> bd_bookingId d < bookingIdCounter s)"

text \<open>The booking row and the detail rows that \<open>createBooking\<close> builds.\<close>

definition mkBooking :: "nat \<Rightarrow> nat \<Rightarrow> insertBooking \<Rightarrow> booking" where
  "mkBooking i now ib =
     \<lparr>bk_id = i, bk_userId = ib_userId ib, bk_busId = ib_busId ib,
      bk_travelDate = ib_travelDate ib, bk_bookingDate = now,
      bk_status = ib_status ib, bk_totalAmount = ib_totalAmount ib,
      bk_paymentStatus = ib_paymentStatus ib\<rparr>"

definition newDetails :: "nat \<Rightarrow> nat \<Rightarrow> string list \<Rightarrow> (nat, bookingDetail) jsmap" where
  "newDetails i c ns =
     map (\<lambda>(k, n). (c + k, \<lparr>bd_id = c + k, bd_bookingId = i, bd_seatNumber = n\<rparr>))
       (enumerate 0 ns)"

text \<open>
  A small store built by the operations themselves: two cities and one bus with twenty seats,
  which is the size of the default layout.
\<close>

definition demoStorage :: memStorage where
  "demoStorage =
     (let (s1, a) = createCity emptyStorage ''Bangalore, Karnataka'';
          (s2, b) = createCity s1 ''Hyderabad, Telangana''
      in fst (createBus s2 (mkBus ''Karnataka Express'' ''Luxury'' (city_id a) (city_id b)
                ''07:30'' ''14:15'' ''6h 45m'' 4500 20 [''wifi''] 450 120)))"

definition demoRequest :: insertBooking where
  "demoRequest =
     \<lparr>ib_userId = 7, ib_busId = 1, ib_travelDate = ''2025-06-01'', ib_status = ''confirmed'',
      ib_totalAmount = 4500, ib_paymentStatus = ''paid''\<rparr>"

text \<open>The demo store after the first availability query for bus 1 on the date.\<close>

definition demoTrip :: memStorage where
  "demoTrip = fst (getSeatAvailability demoStorage 1 ''2025-06-01'')"

text \<open>The store after the first two steps of \<open>createBooking\<close>: booking and details stored,
  trip not yet touched.\<close>

definition bookedStore :: "memStorage \<Rightarrow> nat \<Rightarrow> insertBooking \<Rightarrow> string list \<Rightarrow> memStorage" where
  "bookedStore s now ib seats =
     s\<lparr>bookingIdCounter := bookingIdCounter s + 1,
       bookings := AList.update (bookingIdCounter s) (mkBooking (bookingIdCounter s) now ib) (bookings s),
       bookingDetails := fst (addDetails (bookingIdCounter s) seats (bookingDetails s, bookingDetailIdCounter s)),
       bookingDetailIdCounter := bookingDetailIdCounter s + length seats\<rparr>"

text \<open>The store after \<open>cancelBooking\<close> has rewritten the status, trip not yet touched.\<close>

definition cancelledStore :: "memStorage \<Rightarrow> nat \<Rightarrow> booking \<Rightarrow> memStorage" where
  "cancelledStore s i b0 = s\<lparr>bookings := AList.update i (b0\<lparr>bk_status := ''cancelled''\<rparr>) (bookings s)\<rparr>"

text \<open>What \<open>getBus\<close> answers for bus 1 of the demo store.\<close>

definition demoBus :: busWithCities where
  "demoBus =
     \<lparr>bus_id = 1, bus_name = ''Karnataka Express'', bus_type = ''Luxury'', bus_fromCityId = 1,
      bus_toCityId = 2, bus_departureTime = ''07:30'', bus_arrivalTime = ''14:15'',
      bus_duration = ''6h 45m'', bus_price = 4500, bus_totalSeats = 20,
      bus_amenities = Some [''wifi''], bus_rating = Some 450, bus_reviewCount = Some 120,
      bwc_fromCity = \<lparr>city_id = 1, city_name = ''Bangalore, Karnataka''\<rparr>,
      bwc_toCity = \<lparr>city_id = 2, city_name = ''Hyderabad, Telangana''\<rparr>\<rparr>"

text \<open>Seat 2B booked by booking 1, and that booking cancelled again.\<close>

definition demoBooked :: memStorage where
  "demoBooked = fst (createBooking demoTrip 1000 demoRequest [''2B''])"

definition demoCancelled :: memStorage where
  "demoCancelled = fst (cancelBooking demoBooked 1)"

text \<open>The default layout of bus 1, written out: seat-layout id, seat number, row, column,
  visibility.\<close>

definition demoSeat :: "nat \<Rightarrow> string \<Rightarrow> int \<Rightarrow> int \<Rightarrow> bool \<Rightarrow> nat \<times> seatLayout" where
  "demoSeat i n r c v =
     (i, \<lparr>sl_id = i, sl_busId = 1, sl_seatNumber = n, sl_rowPosition = r,
          sl_columnPosition = c, sl_isVisible = v\<rparr>)"

definition demoLayouts :: "(nat, seatLayout) jsmap" where
  "demoLayouts =
     [demoSeat 1 ''1A'' 1 0 True, demoSeat 2 ''1B'' 1 1 True, demoSeat 3 ''1C'' 1 3 False,
      demoSeat 4 ''2A'' 2 0 True, demoSeat 5 ''2B'' 2 1 True, demoSeat 6 ''2C'' 2 3 True,
      demoSeat 7 ''3A'' 3 0 False, demoSeat 8 ''3B'' 3 1 True, demoSeat 9 ''3C'' 3 3 True,
      demoSeat 10 ''4A'' 4 0 False, demoSeat 11 ''4B'' 4 1 False, demoSeat 12 ''4C'' 4 3 True,
      demoSeat 13 ''5A'' 5 0 True, demoSeat 14 ''5B'' 5 1 True, demoSeat 15 ''5C'' 5 3 True,
      demoSeat 16 ''6A'' 6 0 True, demoSeat 17 ''6B'' 6 1 True, demoSeat 18 ''6C'' 6 2 True,
      demoSeat 19 ''6D'' 6 3 True, demoSeat 20 ''6E'' 6 4 True]"

text \<open>The seat-availability map of trip 1 of the demo store when the seats \<open>taken\<close> are marked
  unavailable: one entry per layout seat, in layout order.\<close>

definition demoSeatMap :: "string list \<Rightarrow> (string, tripSeatAvailability) jsmap" where
  "demoSeatMap taken =
     map (\<lambda>l. (''1-'' @ sl_seatNumber (snd l),
               \<lparr>tsa_tripId = 1, tsa_seatNumber = sl_seatNumber (snd l),
                tsa_isAvailable = (sl_seatNumber (snd l) \<notin> set taken)\<rparr>))
       demoLayouts"

section \<open>Sequences of operations\<close>

text \<open>Reading a decimal numeral back; it shows that different trip ids give different keys.\<close>

definition digitVal :: "char \<Rightarrow> nat" where
  "digitVal c = of_char c - 48"

definition readNat :: "string \<Rightarrow> nat" where
  "readNat cs = foldl (\<lambda>a c. 10 * a + digitVal c) 0 cs"

text \<open>
  A layout seat is reported available when its availability entry does not say otherwise and
  no confirmed booking of the bus and date names it.  \<open>seatCount\<close> is the number of layout
  rows of a bus that carry a seat number.
\<close>

definition seatOpen :: "memStorage \<Rightarrow> nat \<Rightarrow> nat \<Rightarrow> string \<Rightarrow> string \<Rightarrow> bool" where
  "seatOpen s tripId busId date n \<longleftrightarrow>
     (case map_of (tripSeatAvailability s) (seatKey tripId n) of
        None \<Rightarrow> True | Some a \<Rightarrow> tsa_isAvailable a)
     \<and> n \<notin> set (bookedSeats s busId date)"

definition seatCount :: "memStorage \<Rightarrow> nat \<Rightarrow> string \<Rightarrow> nat" where
  "seatCount s busId n = length (filter (\<lambda>l. sl_seatNumber l = n) (getBusSeatLayout s busId))"

text \<open>
  The three operations named by the counter-consistency property, and what they do to the
  store.  A step is admissible when, if it touches an existing trip, a booking requests
  pairwise distinct seats each reported available exactly once, and a cancellation targets a
  confirmed booking whose seats each occur once in the layout while no seat of the bus and
  date is named twice by confirmed bookings.
\<close>

datatype operation = Query nat string | Book nat insertBooking "string list" | Cancel nat

fun step :: "memStorage \<Rightarrow> operation \<Rightarrow> memStorage" where
  "step s (Query busId date) = fst (getSeatAvailability s busId date)"
| "step s (Book now ib seats) = fst (createBooking s now ib seats)"
| "step s (Cancel i) = fst (cancelBooking s i)"

fun run :: "memStorage \<Rightarrow> operation list \<Rightarrow> memStorage" where
  "run s [] = s"
| "run s (x # xs) = run (step s x) xs"

fun admissible :: "memStorage \<Rightarrow> operation \<Rightarrow> bool" where
  "admissible s (Query busId date) = True"
| "admissible s (Book now ib seats) =
     (case findTrip s (ib_busId ib) (ib_travelDate ib) of
        None \<Rightarrow> True
      | Some t \<Rightarrow>
          distinct seats
          \<and> (\<forall>n \<in> set seats. seatStatus s (ib_busId ib) (ib_travelDate ib) n = [True]))"
| "admissible s (Cancel i) =
     (case map_of (bookings s) i of
        None \<Rightarrow> True
      | Some b \<Rightarrow>
          (case findTrip s (bk_busId b) (bk_travelDate b) of
             None \<Rightarrow> True
           | Some t \<Rightarrow>
               bk_status b = ''confirmed''
               \<and> distinct (bookedSeats s (bk_busId b) (bk_travelDate b))
               \<and> (\<forall>x \<in> set (detailsOf s i). seatCount s (bk_busId b) (bd_seatNumber x) = 1)))"

fun admissibleRun :: "memStorage \<Rightarrow> operation list \<Rightarrow> bool" where
  "admissibleRun s [] = True"
| "admissibleRun s (x # xs) = (admissible s x \<and> admissibleRun (step s x) xs)"

section \<open>Basic facts about the loops and lookups\<close>

lemma getBus_cong: "buses s' = buses s \<Longrightarrow> cities s' = cities s \<Longrightarrow> getBus s' i = getBus s i"
  by (simp add: getBus_def split: option.splits)

lemma seatKey_inject [simp]: "seatKey t n = seatKey t n' \<longleftrightarrow> n = n'"
  by (simp add: seatKey_def)

lemma map_of_setSeats:
  "map_of (setSeats t a ns m) (seatKey t n) =
     (if n \<in> set ns then Some \<lparr>tsa_tripId = t, tsa_seatNumber = n, tsa_isAvailable = a\<rparr>
      else map_of m (seatKey t n))"
  by (induction ns arbitrary: m) (auto simp: update_conv')

lemma map_of_setSeats_other:
  "k \<notin> seatKey t ` set ns \<Longrightarrow> map_of (setSeats t a ns m) k = map_of m k"
  by (induction ns arbitrary: m) (auto simp: update_conv')

lemma addDetails_counter: "snd (addDetails i ns (m, c)) = c + length ns"
  by (induction ns arbitrary: m c) auto

lemma map_of_addDetails_old:
  "k < c \<Longrightarrow> map_of (fst (addDetails i ns (m, c))) k = map_of m k"
  by (induction ns arbitrary: m c) (auto simp: update_conv')

lemma map_of_addDetails_new:
  "k < length ns \<Longrightarrow>
   map_of (fst (addDetails i ns (m, c))) (c + k) =
     Some \<lparr>bd_id = c + k, bd_bookingId = i, bd_seatNumber = ns ! k\<rparr>"
proof (induction ns arbitrary: m c k)
  case Nil
  then show ?case by simp
next
  case (Cons n ns)
  show ?case
  proof (cases k)
    case 0
    then show ?thesis by (simp add: map_of_addDetails_old update_conv')
  next
    case (Suc j)
    with Cons.prems have "j < length ns" by simp
    from Cons.IH[OF this, of "AList.update c \<lparr>bd_id = c, bd_bookingId = i, bd_seatNumber = n\<rparr> m" "c + 1"]
    show ?thesis using Suc by simp
  qed
qed

lemma update_fresh: "k \<notin> fst ` set m \<Longrightarrow> AList.update k v m = m @ [(k, v)]"
  by (induction m) auto

text \<open>With fresh keys the detail loop appends its rows in order.\<close>

lemma addDetails_fresh:
  "\<forall>k \<in> fst ` set m. k < c \<Longrightarrow> fst (addDetails i ns (m, c)) = m @ newDetails i c ns"
proof (induction ns arbitrary: m c)
  case Nil
  then show ?case by (simp add: newDetails_def)
next
  case (Cons n ns)
  have fresh: "c \<notin> fst ` set m" using Cons.prems by auto
  have "\<forall>k \<in> fst ` set (m @ [(c, \<lparr>bd_id = c, bd_bookingId = i, bd_seatNumber = n\<rparr>)]). k < c + 1"
    using Cons.prems by auto
  from Cons.IH[OF this] show ?case
    using fresh by (simp add: update_fresh newDetails_def enumerate_Suc_eq[of 0] o_def split_def)
qed

subsection \<open>The effect of \<open>createBooking\<close> on the store\<close>

lemma createBooking_None:
  assumes "findTrip s (ib_busId ib) (ib_travelDate ib) = None"
  shows "fst (createBooking s now ib seats) = bookedStore s now ib seats"
proof -
  obtain ds c where a: "addDetails (bookingIdCounter s) seats (bookingDetails s, bookingDetailIdCounter s) = (ds, c)"
    by force
  have c: "c = bookingDetailIdCounter s + length seats"
    using addDetails_counter[of "bookingIdCounter s" seats "bookingDetails s" "bookingDetailIdCounter s"] a by simp
  show ?thesis
    using assms a c by (simp add: createBooking_def bookedStore_def mkBooking_def findTrip_def Let_def)
qed

lemma createBooking_Some:
  assumes "findTrip s (ib_busId ib) (ib_travelDate ib) = Some t"
  shows "fst (createBooking s now ib seats) =
     (bookedStore s now ib seats)
       \<lparr>trips := AList.update (trip_id t)
          (t\<lparr>trip_availableSeats := trip_availableSeats t - int (length seats)\<rparr>) (trips s),
        tripSeatAvailability := setSeats (trip_id t) False seats (tripSeatAvailability s)\<rparr>"
proof -
  obtain ds c where a: "addDetails (bookingIdCounter s) seats (bookingDetails s, bookingDetailIdCounter s) = (ds, c)"
    by force
  have c: "c = bookingDetailIdCounter s + length seats"
    using addDetails_counter[of "bookingIdCounter s" seats "bookingDetails s" "bookingDetailIdCounter s"] a by simp
  show ?thesis
    using assms a c by (simp add: createBooking_def bookedStore_def mkBooking_def findTrip_def Let_def)
qed

lemma createBooking_result:
  "snd (createBooking s now ib seats) =
     getBookingWithDetails (fst (createBooking s now ib seats)) (mkBooking (bookingIdCounter s) now ib)"
  by (simp add: createBooking_def Let_def split_def mkBooking_def)

lemma createBooking_bookings:
  "bookings (fst (createBooking s now ib seats)) =
     AList.update (bookingIdCounter s) (mkBooking (bookingIdCounter s) now ib) (bookings s)"
  by (cases "findTrip s (ib_busId ib) (ib_travelDate ib)")
     (simp_all add: createBooking_None createBooking_Some bookedStore_def)

lemma createBooking_bookingDetails:
  "bookingDetails (fst (createBooking s now ib seats)) =
     fst (addDetails (bookingIdCounter s) seats (bookingDetails s, bookingDetailIdCounter s))"
  by (cases "findTrip s (ib_busId ib) (ib_travelDate ib)")
     (simp_all add: createBooking_None createBooking_Some bookedStore_def)

lemma createBooking_getBus: "getBus (fst (createBooking s now ib seats)) i = getBus s i"
proof (cases "findTrip s (ib_busId ib) (ib_travelDate ib)")
  case None
  show ?thesis unfolding createBooking_None[OF None]
    by (rule getBus_cong) (simp_all add: bookedStore_def)
next
  case (Some t)
  show ?thesis unfolding createBooking_Some[OF Some]
    by (rule getBus_cong) (simp_all add: bookedStore_def)
qed

lemma getBookingWithDetails_ok:
  "getBus s (bk_busId b) = Inr (Some bwc) \<Longrightarrow>
   getBookingWithDetails s b =
     Inr (booking.extend b (bookingWithDetails.fields bwc (bwc_fromCity bwc) (bwc_toCity bwc)
            (map bd_seatNumber (detailsOf s (bk_id b)))))"
  by (simp add: getBookingWithDetails_def)

lemma truncate_extend [simp]: "booking.truncate (booking.extend b m) = b"
  by (cases b) (simp add: booking.truncate_def booking.extend_def)

lemma bwd_seats_extend [simp]:
  "bwd_seats (booking.extend b (bookingWithDetails.fields w f t ns)) = ns"
  by (simp add: booking.extend_def bookingWithDetails.fields_def)

lemma extend_sel [simp]:
  "bk_id (booking.extend b m) = bk_id b" "bk_status (booking.extend b m) = bk_status b"
  "bk_userId (booking.extend b m) = bk_userId b" "bk_busId (booking.extend b m) = bk_busId b"
  "bk_travelDate (booking.extend b m) = bk_travelDate b"
  "bk_bookingDate (booking.extend b m) = bk_bookingDate b"
  "bk_totalAmount (booking.extend b m) = bk_totalAmount b"
  "bk_paymentStatus (booking.extend b m) = bk_paymentStatus b"
  by (cases b; simp add: booking.extend_def)+

lemma mkBooking_sel [simp]:
  "bk_id (mkBooking i now ib) = i" "bk_busId (mkBooking i now ib) = ib_busId ib"
  "bk_travelDate (mkBooking i now ib) = ib_travelDate ib" "bk_status (mkBooking i now ib) = ib_status ib"
  by (simp_all add: mkBooking_def)

lemma newDetails_seats: "map (bd_seatNumber \<circ> snd) (newDetails i c ns) = ns"
  by (simp add: newDetails_def split_def o_def)

lemma newDetails_bookingId: "d \<in> snd ` set (newDetails i c ns) \<Longrightarrow> bd_bookingId d = i"
  by (auto simp: newDetails_def)

lemma storeInv_details_fresh:
  "storeInv s \<Longrightarrow> \<forall>k \<in> fst ` set (bookingDetails s). k < bookingDetailIdCounter s"
  by (auto simp: storeInv_def)

lemma storeInv_details_old:
  "storeInv s \<Longrightarrow> d \<in> snd ` set (bookingDetails s) \<Longrightarrow> bd_bookingId d < bookingIdCounter s"
  by (auto simp: storeInv_def)

lemma createBooking_details_inv:
  assumes "storeInv s"
  shows "bookingDetails (fst (createBooking s now ib seats)) =
           bookingDetails s @ newDetails (bookingIdCounter s) (bookingDetailIdCounter s) seats"
  by (simp add: createBooking_bookingDetails addDetails_fresh storeInv_details_fresh[OF assms])

lemma detailsOf_append:
  "bookingDetails s' = bookingDetails s @ ds \<Longrightarrow>
   detailsOf s' i = detailsOf s i @ filter (\<lambda>d. bd_bookingId d = i) (map snd ds)"
  by (simp add: detailsOf_def values_of_def)

lemma detailsOf_fresh:
  "storeInv s \<Longrightarrow> detailsOf s (bookingIdCounter s) = []"
  using storeInv_details_old by (fastforce simp: detailsOf_def values_of_def filter_empty_conv)

lemma createBooking_detailsOf_new:
  assumes "storeInv s"
  shows "map bd_seatNumber (detailsOf (fst (createBooking s now ib seats)) (bookingIdCounter s)) = seats"
proof -
  let ?nd = "newDetails (bookingIdCounter s) (bookingDetailIdCounter s) seats"
  have "filter (\<lambda>d. bd_bookingId d = bookingIdCounter s) (map snd ?nd) = map snd ?nd"
    using newDetails_bookingId by (auto simp: filter_id_conv)
  then show ?thesis
    using detailsOf_append[OF createBooking_details_inv[OF assms], of now ib seats "bookingIdCounter s"]
    by (simp add: detailsOf_fresh[OF assms] newDetails_seats)
qed

subsection \<open>Finding a trip after its counter was rewritten\<close>

lemma find_update_key:
  assumes "distinct (map fst m)" and "\<forall>(k, v) \<in> set m. f v = k"
    and "List.find P (map snd m) = Some v" and "P v'"
  shows "List.find P (map snd (AList.update (f v) v' m)) = Some v'"
  using assms
proof (induction m)
  case Nil
  then show ?case by simp
next
  case (Cons a m)
  obtain k0 v0 where a: "a = (k0, v0)" by (cases a)
  show ?case
  proof (cases "P v0")
    case True
    with Cons.prems a show ?thesis by simp
  next
    case False
    with Cons.prems a have found: "List.find P (map snd m) = Some v" by simp
    then have "v \<in> snd ` set m" by (auto simp: find_Some_iff)
    then obtain k where "(k, v) \<in> set m" by force
    with Cons.prems(2) have "(f v, v) \<in> set m" by auto
    then have "f v \<in> fst ` set m" by force
    with Cons.prems(1) a have ne: "k0 \<noteq> f v" by auto
    have "List.find P (map snd (AList.update (f v) v' m)) = Some v'"
      using Cons.IH Cons.prems found by simp
    with ne a False show ?thesis by simp
  qed
qed

lemma find_update_other:
  assumes "map_of m k = Some v" and "\<not> Q v" and "\<not> Q v'"
  shows "List.find Q (map snd (AList.update k v' m)) = List.find Q (map snd m)"
  using assms by (induction m) (auto split: if_splits)

lemma storeInv_findTrip_lookup:
  assumes "storeInv s" and "findTrip s b d = Some t"
  shows "map_of (trips s) (trip_id t) = Some t"
proof -
  from assms(2) have "t \<in> snd ` set (trips s)"
    by (auto simp: findTrip_def values_of_def find_Some_iff)
  then obtain k where k: "(k, t) \<in> set (trips s)" by force
  with assms(1) have "trip_id t = k" by (auto simp: storeInv_def)
  with k assms(1) show ?thesis by (simp add: storeInv_def)
qed

lemma findTrip_matches:
  "findTrip s b d = Some t \<Longrightarrow> trip_busId t = b \<and> trip_date t = d"
  by (auto simp: findTrip_def find_Some_iff)

lemma storeInv_findTrip_update:
  assumes "storeInv s" and "findTrip s b d = Some t"
    and "trips s' = AList.update (trip_id t) (t\<lparr>trip_availableSeats := a\<rparr>) (trips s)"
  shows "findTrip s' b d = Some (t\<lparr>trip_availableSeats := a\<rparr>)"
proof -
  have 1: "distinct (map fst (trips s))" and 2: "\<forall>(k, v) \<in> set (trips s). trip_id v = k"
    using assms(1) by (auto simp: storeInv_def)
  have 3: "List.find (\<lambda>t. trip_busId t = b \<and> trip_date t = d) (map snd (trips s)) = Some t"
    using assms(2) by (simp add: findTrip_def values_of_def)
  have 4: "trip_busId (t\<lparr>trip_availableSeats := a\<rparr>) = b \<and> trip_date (t\<lparr>trip_availableSeats := a\<rparr>) = d"
    using findTrip_matches[OF assms(2)] by simp
  from find_update_key[where f = trip_id, OF 1 2 3, of "t\<lparr>trip_availableSeats := a\<rparr>"] 4
  show ?thesis by (simp add: findTrip_def values_of_def assms(3))
qed


subsection \<open>The effect of \<open>cancelBooking\<close> on the store\<close>

lemma cancelBooking_missing:
  "map_of (bookings s) i = None \<Longrightarrow> cancelBooking s i = (s, Inl (BookingNotFoundWithId i))"
  by (simp add: cancelBooking_def)

lemma cancelBooking_None:
  assumes "map_of (bookings s) i = Some b0"
    and "findTrip s (bk_busId b0) (bk_travelDate b0) = None"
  shows "fst (cancelBooking s i) = cancelledStore s i b0"
  using assms by (simp add: cancelBooking_def cancelledStore_def findTrip_def Let_def)

lemma cancelBooking_Some:
  assumes "map_of (bookings s) i = Some b0"
    and "findTrip s (bk_busId b0) (bk_travelDate b0) = Some t"
  shows "fst (cancelBooking s i) =
     (cancelledStore s i b0)
       \<lparr>trips := AList.update (trip_id t)
          (t\<lparr>trip_availableSeats :=
               trip_availableSeats t + int (length (detailsOf s (bk_id b0)))\<rparr>) (trips s),
        tripSeatAvailability :=
          setSeats (trip_id t) True (map bd_seatNumber (detailsOf s (bk_id b0)))
            (tripSeatAvailability s)\<rparr>"
  using assms by (simp add: cancelBooking_def cancelledStore_def findTrip_def detailsOf_def Let_def)

lemma cancelBooking_result:
  "map_of (bookings s) i = Some b0 \<Longrightarrow>
   snd (cancelBooking s i) =
     getBookingWithDetails (fst (cancelBooking s i)) (b0\<lparr>bk_status := ''cancelled''\<rparr>)"
  by (simp add: cancelBooking_def Let_def)

lemma cancelBooking_getBus:
  "getBus (fst (cancelBooking s i)) j = getBus s j"
proof (cases "map_of (bookings s) i")
  case None
  then show ?thesis by (simp add: cancelBooking_missing)
next
  case (Some b0)
  show ?thesis
  proof (cases "findTrip s (bk_busId b0) (bk_travelDate b0)")
    case None
    show ?thesis unfolding cancelBooking_None[OF Some None]
      by (rule getBus_cong) (simp_all add: cancelledStore_def)
  next
    case (Some t)
    show ?thesis unfolding cancelBooking_Some[OF \<open>map_of (bookings s) i = Some b0\<close> Some]
      by (rule getBus_cong) (simp_all add: cancelledStore_def)
  qed
qed

lemma cancelBooking_bookingDetails:
  "bookingDetails (fst (cancelBooking s i)) = bookingDetails s"
proof (cases "map_of (bookings s) i")
  case None
  then show ?thesis by (simp add: cancelBooking_missing)
next
  case (Some b0)
  then show ?thesis
    by (cases "findTrip s (bk_busId b0) (bk_travelDate b0)")
       (simp_all add: cancelBooking_None cancelBooking_Some cancelledStore_def)
qed

lemma cancelBooking_bookings:
  "map_of (bookings s) i = Some b0 \<Longrightarrow>
   bookings (fst (cancelBooking s i)) = AList.update i (b0\<lparr>bk_status := ''cancelled''\<rparr>) (bookings s)"
  by (cases "findTrip s (bk_busId b0) (bk_travelDate b0)")
     (simp_all add: cancelBooking_None cancelBooking_Some cancelledStore_def)

subsection \<open>The effect of \<open>getSeatAvailability\<close> on the store\<close>

lemma getSeatAvailability_existing:
  "findTrip s b d = Some t \<Longrightarrow>
   getSeatAvailability s b d =
     (s, Inr (map (seatResponse s t (bookedSeats s b d)) (getBusSeatLayout s b)))"
  by (simp add: getSeatAvailability_def)

lemma getSeatAvailability_new:
  assumes "findTrip s b d = None" and "getBus s b = Inr (Some bwc)"
  shows "fst (getSeatAvailability s b d) =
     s\<lparr>tripIdCounter := tripIdCounter s + 1,
       trips := AList.update (tripIdCounter s)
         \<lparr>trip_id = tripIdCounter s, trip_busId = b, trip_date = d,
          trip_availableSeats = bus_totalSeats bwc\<rparr> (trips s),
       tripSeatAvailability :=
         setSeats (tripIdCounter s) True (map sl_seatNumber (getBusSeatLayout s b))
           (tripSeatAvailability s)\<rparr>"
  using assms by (simp add: getSeatAvailability_def Let_def)

lemma getSeatAvailability_error:
  "findTrip s b d = None \<Longrightarrow> getBus s b = Inl e \<or> getBus s b = Inr None \<Longrightarrow>
   fst (getSeatAvailability s b d) = s"
  by (auto simp: getSeatAvailability_def)








subsection \<open>Booked seats and reported seats\<close>

lemma seatStatus_existing:
  assumes "findTrip s b d = Some t"
  shows "seatStatus s b d n =
     map (\<lambda>l. (case map_of (tripSeatAvailability s) (seatKey (trip_id t) n) of
                  None \<Rightarrow> True | Some a \<Rightarrow> tsa_isAvailable a)
               \<and> n \<notin> set (bookedSeats s b d))
       (filter (\<lambda>l. sl_seatNumber l = n) (getBusSeatLayout s b))"
  unfolding seatStatus_def reportedSeats_def getSeatAvailability_existing[OF assms]
  by (induction "getBusSeatLayout s b") (auto simp: seatResponse_def filter_map o_def)

lemma getBookingWithDetails_truncate:
  "getBookingWithDetails s b = Inr r \<Longrightarrow> booking.truncate r = b"
  by (auto simp: getBookingWithDetails_def split: sum.splits option.splits)

lemma update_append_fresh:
  "k \<notin> fst ` set m \<Longrightarrow> AList.update k v (m @ [(k, v')]) = m @ [(k, v)]"
  by (induction m) auto

lemma storeInv_bookings_fresh:
  "storeInv s \<Longrightarrow> bookingIdCounter s \<notin> fst ` set (bookings s)"
  by (auto simp: storeInv_def)

lemma storeInv_bookings_old:
  "storeInv s \<Longrightarrow> b \<in> set (values_of (bookings s)) \<Longrightarrow> bk_id b < bookingIdCounter s"
  by (auto simp: storeInv_def values_of_def)

lemma newDetails_filter_other:
  "j \<noteq> i \<Longrightarrow> filter (\<lambda>d. bd_bookingId d = j) (map snd (newDetails i c ns)) = []"
  by (auto simp: newDetails_def filter_empty_conv)

text \<open>Rows appended for a fresh booking id do not change the seats of the bookings already
  stored; a booking appended with a status other than confirmed books nothing.\<close>

lemma bookedSeats_append:
  assumes inv: "storeInv s"
    and bs: "bookings s' = bookings s @ [(bookingIdCounter s, b')]"
    and ds: "bookingDetails s' = bookingDetails s @ newDetails (bookingIdCounter s) c ns"
    and st: "bk_status b' \<noteq> ''confirmed''"
  shows "bookedSeats s' b d = bookedSeats s b d"
proof -
  have old: "detailsOf s' (bk_id x) = detailsOf s (bk_id x)" if "x \<in> set (values_of (bookings s))" for x
  proof -
    have "bk_id x \<noteq> bookingIdCounter s" using storeInv_bookings_old[OF inv that] by simp
    then have "filter (\<lambda>d. bd_bookingId d = bk_id x) (map snd (newDetails (bookingIdCounter s) c ns)) = []"
      by (rule newDetails_filter_other)
    with detailsOf_append[OF ds, of "bk_id x"] show ?thesis by simp
  qed
  let ?P = "\<lambda>x. bk_busId x = b \<and> bk_travelDate x = d \<and> bk_status x = ''confirmed''"
  have vs: "filter ?P (values_of (bookings s')) = filter ?P (values_of (bookings s))"
    using st by (simp add: bs values_of_def)
  have "map (\<lambda>x. map bd_seatNumber (detailsOf s' (bk_id x))) (filter ?P (values_of (bookings s))) =
        map (\<lambda>x. map bd_seatNumber (detailsOf s (bk_id x))) (filter ?P (values_of (bookings s)))"
    by (rule map_cong) (simp_all add: old)
  then show ?thesis
    unfolding bookedSeats_def vs by (rule arg_cong)
qed


subsection \<open>Every operation keeps the store well-formed\<close>

lemma storeInv_createCity: "storeInv (fst (createCity s name)) = storeInv s"
  by (simp add: createCity_def storeInv_def Let_def)

lemma storeInv_createSeatLayout: "storeInv (fst (createSeatLayout s b n r c v)) = storeInv s"
  by (simp add: createSeatLayout_def storeInv_def Let_def)

lemma foldl_preserves:
  "(\<And>a x. P (f a x) = P a) \<Longrightarrow> P (foldl f a xs) = P a"
  by (induction xs arbitrary: a) simp_all

lemma storeInv_createDefaultSeatLayout: "storeInv (createDefaultSeatLayout s b) = storeInv s"
  unfolding createDefaultSeatLayout_def
  by (rule foldl_preserves) (simp add: storeInv_createSeatLayout split: prod.splits option.splits)

lemma storeInv_createBus: "storeInv (fst (createBus s ins)) = storeInv s"
  by (simp add: createBus_def Let_def storeInv_createDefaultSeatLayout) (simp add: storeInv_def)

lemma storeInv_emptyStorage: "storeInv emptyStorage"
  by (simp add: storeInv_def emptyStorage_def values_of_def)

lemma storeInv_seedData: "storeInv (seedData s) = storeInv s"
  by (simp add: seedData_def split_def Let_def storeInv_createBus storeInv_createCity)

lemma storeInv_newMemStorage: "storeInv newMemStorage"
  by (simp add: newMemStorage_def storeInv_seedData storeInv_emptyStorage)

lemma storeInv_getSeatAvailability:
  assumes "storeInv s"
  shows "storeInv (fst (getSeatAvailability s b d))"
proof (cases "findTrip s b d")
  case (Some t)
  with assms show ?thesis by (simp add: getSeatAvailability_existing)
next
  case None
  show ?thesis
  proof (cases "getBus s b")
    case (Inl e)
    with None assms show ?thesis by (simp add: getSeatAvailability_error)
  next
    case (Inr ob)
    show ?thesis
    proof (cases ob)
      case None
      with Inr \<open>findTrip s b d = None\<close> assms show ?thesis by (simp add: getSeatAvailability_error)
    next
      case (Some bwc)
      with Inr have bus: "getBus s b = Inr (Some bwc)" by simp
      let ?t = "\<lparr>trip_id = tripIdCounter s, trip_busId = b, trip_date = d,
                 trip_availableSeats = bus_totalSeats bwc\<rparr>"
      have fresh: "tripIdCounter s \<notin> fst ` set (trips s)"
        using assms by (auto simp: storeInv_def)
      have nokey: "(b, d) \<notin> (\<lambda>t. (trip_busId t, trip_date t)) ` snd ` set (trips s)"
        using \<open>findTrip s b d = None\<close> by (auto simp: findTrip_def values_of_def find_None_iff)
      have tr: "trips (fst (getSeatAvailability s b d)) = trips s @ [(tripIdCounter s, ?t)]"
        unfolding getSeatAvailability_new[OF \<open>findTrip s b d = None\<close> bus]
        by (simp add: update_fresh[OF fresh])
      show ?thesis
        using assms fresh nokey
        unfolding storeInv_def tr
        unfolding getSeatAvailability_new[OF \<open>findTrip s b d = None\<close> bus]
        by (auto simp: values_of_def less_Suc_eq)
    qed
  qed
qed


lemma update_same_image:
  "map_of m k = Some v \<Longrightarrow> g v' = g v \<Longrightarrow>
   map g (map snd (AList.update k v' m)) = map g (map snd m)"
  by (induction m) (auto split: if_splits)

lemma update_inplace_rows:
  assumes "map_of m k = Some v" and "\<forall>(j, x) \<in> set m. Q j x" and "Q k v'"
  shows "\<forall>(j, x) \<in> set (AList.update k v' m). Q j x"
  using assms by (induction m) (auto split: if_splits)

lemma newDetails_keys:
  "map fst (newDetails i c ns) = map (\<lambda>k. c + k) [0 ..< length ns]"
proof -
  have "map fst (newDetails i c ns) = map ((+) c \<circ> fst) (enumerate 0 ns)"
    by (simp add: newDetails_def split_def o_def)
  also have "\<dots> = map ((+) c) (map fst (enumerate 0 ns))"
    by (simp only: map_map)
  also have "\<dots> = map ((+) c) [0 ..< length ns]"
    by (simp only: map_fst_enumerate) simp
  finally show ?thesis .
qed

lemma newDetails_rows:
  "(k, x) \<in> set (newDetails i c ns) \<Longrightarrow> c \<le> k \<and> k < c + length ns \<and> bd_bookingId x = i"
  by (auto simp: newDetails_def in_set_enumerate_eq)

text \<open>Rewriting the counter of the trip found keeps the trip part of the invariant.\<close>

lemma storeInv_trips_update:
  assumes inv: "storeInv s" and trip: "findTrip s b d = Some t"
  shows "distinct (map fst (AList.update (trip_id t) (t\<lparr>trip_availableSeats := a\<rparr>) (trips s)))"
    and "\<forall>(k, x) \<in> set (AList.update (trip_id t) (t\<lparr>trip_availableSeats := a\<rparr>) (trips s)).
            trip_id x = k \<and> k < tripIdCounter s"
    and "distinct (map (\<lambda>t. (trip_busId t, trip_date t))
            (map snd (AList.update (trip_id t) (t\<lparr>trip_availableSeats := a\<rparr>) (trips s))))"
proof -
  note look = storeInv_findTrip_lookup[OF inv trip]
  show "distinct (map fst (AList.update (trip_id t) (t\<lparr>trip_availableSeats := a\<rparr>) (trips s)))"
    using inv by (simp add: storeInv_def distinct_update)
  have rows: "\<forall>(k, x) \<in> set (trips s). trip_id x = k \<and> k < tripIdCounter s"
    using inv by (simp add: storeInv_def)
  have "trip_id t < tripIdCounter s"
    using map_of_SomeD[OF look] rows by auto
  with update_inplace_rows[OF look rows, of "t\<lparr>trip_availableSeats := a\<rparr>"]
  show "\<forall>(k, x) \<in> set (AList.update (trip_id t) (t\<lparr>trip_availableSeats := a\<rparr>) (trips s)).
            trip_id x = k \<and> k < tripIdCounter s"
    by simp
  show "distinct (map (\<lambda>t. (trip_busId t, trip_date t))
            (map snd (AList.update (trip_id t) (t\<lparr>trip_availableSeats := a\<rparr>) (trips s))))"
    using inv update_same_image[OF look, of "\<lambda>t. (trip_busId t, trip_date t)" "t\<lparr>trip_availableSeats := a\<rparr>"]
    by (simp add: storeInv_def values_of_def)
qed

lemma storeInv_bookedStore:
  assumes inv: "storeInv s"
  shows "storeInv (bookedStore s now ib seats)"
proof -
  let ?i = "bookingIdCounter s" and ?c = "bookingDetailIdCounter s"
  have ds: "fst (addDetails ?i seats (bookingDetails s, ?c)) = bookingDetails s @ newDetails ?i ?c seats"
    by (rule addDetails_fresh[OF storeInv_details_fresh[OF inv]])
  have bs: "AList.update ?i (mkBooking ?i now ib) (bookings s) = bookings s @ [(?i, mkBooking ?i now ib)]"
    by (rule update_fresh[OF storeInv_bookings_fresh[OF inv]])
  have dk: "distinct (map fst (bookingDetails s @ newDetails ?i ?c seats))"
    using inv by (auto simp: storeInv_def newDetails_keys distinct_map inj_on_def)
  have dr: "\<forall>(k, x) \<in> set (bookingDetails s @ newDetails ?i ?c seats).
      k < ?c + length seats \<and> bd_bookingId x < ?i + 1"
    using inv newDetails_rows[of _ _ ?i ?c seats] by (fastforce simp: storeInv_def)
  show ?thesis
    using inv dk dr unfolding storeInv_def bookedStore_def ds bs
    by (auto simp: less_Suc_eq)
qed

lemma storeInv_createBooking:
  assumes inv: "storeInv s"
  shows "storeInv (fst (createBooking s now ib seats))"
proof (cases "findTrip s (ib_busId ib) (ib_travelDate ib)")
  case None
  then show ?thesis by (simp add: createBooking_None storeInv_bookedStore[OF inv])
next
  case (Some t)
  note u = storeInv_trips_update[OF inv Some, of "trip_availableSeats t - int (length seats)"]
  have base: "storeInv (bookedStore s now ib seats)" by (rule storeInv_bookedStore[OF inv])
  have same: "tripIdCounter (bookedStore s now ib seats) = tripIdCounter s"
    by (simp add: bookedStore_def)
  show ?thesis
    unfolding createBooking_Some[OF Some]
    using base u by (simp add: storeInv_def values_of_def same)
qed

lemma storeInv_cancelledStore:
  assumes inv: "storeInv s" and b: "map_of (bookings s) i = Some b0"
  shows "storeInv (cancelledStore s i b0)"
proof -
  have rows: "\<forall>(k, x) \<in> set (bookings s). bk_id x = k \<and> k < bookingIdCounter s"
    using inv by (simp add: storeInv_def)
  have "bk_id b0 = i \<and> i < bookingIdCounter s"
    using map_of_SomeD[OF b] rows by auto
  with update_inplace_rows[OF b rows, of "b0\<lparr>bk_status := ''cancelled''\<rparr>"]
  have "\<forall>(k, x) \<in> set (AList.update i (b0\<lparr>bk_status := ''cancelled''\<rparr>) (bookings s)).
      bk_id x = k \<and> k < bookingIdCounter s"
    by simp
  with inv show ?thesis
    by (simp add: storeInv_def cancelledStore_def distinct_update)
qed

lemma storeInv_cancelBooking:
  assumes inv: "storeInv s"
  shows "storeInv (fst (cancelBooking s i))"
proof (cases "map_of (bookings s) i")
  case None
  with inv show ?thesis by (simp add: cancelBooking_missing)
next
  case (Some b0)
  note base = storeInv_cancelledStore[OF inv Some]
  show ?thesis
  proof (cases "findTrip s (bk_busId b0) (bk_travelDate b0)")
    case None
    with base show ?thesis by (simp add: cancelBooking_None[OF Some])
  next
    case (Some t)
    note u = storeInv_trips_update[OF inv Some,
        of "trip_availableSeats t + int (length (detailsOf s (bk_id b0)))"]
    have same: "tripIdCounter (cancelledStore s i b0) = tripIdCounter s"
      by (simp add: cancelledStore_def)
    show ?thesis
      unfolding cancelBooking_Some[OF \<open>map_of (bookings s) i = Some b0\<close> Some]
      using base u by (simp add: storeInv_def values_of_def same)
  qed
qed

subsection \<open>Keys of different trips\<close>

lemma digitVal_digit_char: "d < 10 \<Longrightarrow> digitVal (digit_char d) = d"
  by (simp add: digitVal_def digit_char_def)

lemma digit_char_not_hyphen: "d < 10 \<Longrightarrow> digit_char d \<noteq> CHR ''-''"
proof
  assume d: "d < 10" and e: "digit_char d = CHR ''-''"
  from e have "(of_char (digit_char d) :: nat) = of_char CHR ''-''" by simp
  with d show False by (simp add: digit_char_def)
qed

lemma readNat_showNat: "readNat (showNat n) = n"
proof (induction n rule: showNat.induct)
  case (1 n)
  show ?case
  proof (cases "n < 10")
    case True
    then show ?thesis
      by (subst showNat.simps) (simp add: readNat_def digitVal_digit_char)
  next
    case False
    with 1 have "readNat (showNat (n div 10)) = n div 10" by simp
    with False show ?thesis
      by (subst showNat.simps) (simp add: readNat_def digitVal_digit_char)
  qed
qed

lemma showNat_inject: "showNat m = showNat n \<Longrightarrow> m = n"
  by (metis readNat_showNat)

lemma showNat_no_hyphen: "CHR ''-'' \<notin> set (showNat n)"
proof (induction n rule: showNat.induct)
  case (1 n)
  show ?case
  proof (cases "n < 10")
    case True
    then show ?thesis
      using digit_char_not_hyphen[of n] by (subst showNat.simps) auto
  next
    case False
    with 1 have "CHR ''-'' \<notin> set (showNat (n div 10))" by simp
    with False show ?thesis
      using digit_char_not_hyphen[of "n mod 10"] by (subst showNat.simps) auto
  qed
qed

lemma takeWhile_upto: "c \<notin> set xs \<Longrightarrow> takeWhile (\<lambda>x. x \<noteq> c) (xs @ c # u) = xs"
  by (induction xs) auto

lemma split_at_hyphen:
  assumes "CHR ''-'' \<notin> set xs" "CHR ''-'' \<notin> set ys" "xs @ CHR ''-'' # u = ys @ CHR ''-'' # v"
  shows "xs = ys"
proof -
  have "takeWhile (\<lambda>c. c \<noteq> CHR ''-'') (xs @ CHR ''-'' # u) = xs"
    using assms(1) by (rule takeWhile_upto)
  moreover have "takeWhile (\<lambda>c. c \<noteq> CHR ''-'') (ys @ CHR ''-'' # v) = ys"
    using assms(2) by (rule takeWhile_upto)
  ultimately show ?thesis using assms(3) by simp
qed

lemma seatKey_trip_inject: "seatKey t n = seatKey t' n' \<Longrightarrow> t = t'"
  unfolding seatKey_def
  using split_at_hyphen[OF showNat_no_hyphen showNat_no_hyphen, of t n t' n'] showNat_inject
  by auto


subsection \<open>Counting the seats reported available\<close>

lemma availableCount_existing:
  assumes "findTrip s b d = Some t"
  shows "availableCount s b d =
     int (length (filter (\<lambda>l. seatOpen s (trip_id t) b d (sl_seatNumber l)) (getBusSeatLayout s b)))"
  unfolding availableCount_def reportedSeats_def getSeatAvailability_existing[OF assms]
  by (simp add: filter_map o_def seatResponse_def seatOpen_def)

lemma seatStatus_open:
  assumes "findTrip s b d = Some t"
  shows "seatStatus s b d n = replicate (seatCount s b n) (seatOpen s (trip_id t) b d n)"
  unfolding seatStatus_existing[OF assms] seatCount_def seatOpen_def
  by (simp add: map_replicate_const)

lemma seatStatus_single:
  assumes "findTrip s b d = Some t" and "seatStatus s b d n = [True]"
  shows "seatCount s b n = 1" and "seatOpen s (trip_id t) b d n"
proof -
  from assms have r: "replicate (seatCount s b n) (seatOpen s (trip_id t) b d n) = [True]"
    by (simp add: seatStatus_open)
  then have "length (replicate (seatCount s b n) (seatOpen s (trip_id t) b d n)) = 1" by simp
  then show c: "seatCount s b n = 1" by simp
  with r show "seatOpen s (trip_id t) b d n" by simp
qed

lemma count_split:
  "(\<And>l. l \<in> set L \<Longrightarrow> (f l \<in> S \<longrightarrow> P l \<and> \<not> P' l) \<and> (f l \<notin> S \<longrightarrow> P' l = P l)) \<Longrightarrow>
   length (filter P L) = length (filter P' L) + length (filter (\<lambda>l. f l \<in> S) L)"
  by (induction L) auto

lemma count_disjoint:
  "(\<And>l. \<not> (A l \<and> B l)) \<Longrightarrow>
   length (filter (\<lambda>l. A l \<or> B l) L) = length (filter A L) + length (filter B L)"
  by (induction L) auto

lemma count_members:
  "distinct ns \<Longrightarrow> (\<And>n. n \<in> set ns \<Longrightarrow> length (filter (\<lambda>l. f l = n) L) = 1) \<Longrightarrow>
   length (filter (\<lambda>l. f l \<in> set ns) L) = length ns"
proof (induction ns)
  case Nil
  then show ?case by simp
next
  case (Cons n ns)
  have "length (filter (\<lambda>l. f l = n \<or> f l \<in> set ns) L) =
        length (filter (\<lambda>l. f l = n) L) + length (filter (\<lambda>l. f l \<in> set ns) L)"
    using Cons.prems(1) by (intro count_disjoint) auto
  with Cons show ?case by simp
qed

text \<open>The booked seats of any bus and date after \<open>createBooking\<close>.\<close>

lemma bookedSeats_createBooking:
  assumes inv: "storeInv s"
  shows "bookedSeats (fst (createBooking s now ib seats)) b d =
     bookedSeats s b d @
       (if ib_busId ib = b \<and> ib_travelDate ib = d \<and> ib_status ib = ''confirmed'' then seats else [])"
proof -
  let ?s' = "fst (createBooking s now ib seats)"
  let ?i = "bookingIdCounter s"
  let ?nd = "newDetails ?i (bookingDetailIdCounter s) seats"
  let ?P = "\<lambda>x. bk_busId x = b \<and> bk_travelDate x = d \<and> bk_status x = ''confirmed''"
  have ds: "bookingDetails ?s' = bookingDetails s @ ?nd"
    by (rule createBooking_details_inv[OF inv])
  have bs: "values_of (bookings ?s') = values_of (bookings s) @ [mkBooking ?i now ib]"
    by (simp add: createBooking_bookings update_fresh[OF storeInv_bookings_fresh[OF inv]] values_of_def)
  have old: "detailsOf ?s' (bk_id x) = detailsOf s (bk_id x)" if "x \<in> set (values_of (bookings s))" for x
  proof -
    have "bk_id x \<noteq> ?i" using storeInv_bookings_old[OF inv that] by simp
    then have "filter (\<lambda>d. bd_bookingId d = bk_id x) (map snd ?nd) = []"
      by (rule newDetails_filter_other)
    with detailsOf_append[OF ds, of "bk_id x"] show ?thesis by simp
  qed
  have m: "map (\<lambda>x. map bd_seatNumber (detailsOf ?s' (bk_id x))) (filter ?P (values_of (bookings s))) =
        map (\<lambda>x. map bd_seatNumber (detailsOf s (bk_id x))) (filter ?P (values_of (bookings s)))"
    by (rule map_cong) (simp_all add: old)
  have new: "map bd_seatNumber (detailsOf ?s' ?i) = seats"
    by (rule createBooking_detailsOf_new[OF inv])
  show ?thesis
    unfolding bookedSeats_def bs by (simp add: m new)
qed

lemma createBooking_layout:
  "getBusSeatLayout (fst (createBooking s now ib seats)) b = getBusSeatLayout s b"
  by (cases "findTrip s (ib_busId ib) (ib_travelDate ib)")
     (simp_all add: createBooking_None createBooking_Some bookedStore_def getBusSeatLayout_def)


lemma drift_frame:
  assumes "findTrip s b d = Some t" and "findTrip s' b d = Some t"
    and "getBusSeatLayout s' b = getBusSeatLayout s b"
    and "bookedSeats s' b d = bookedSeats s b d"
    and "\<And>n. map_of (tripSeatAvailability s') (seatKey (trip_id t) n) =
             map_of (tripSeatAvailability s) (seatKey (trip_id t) n)"
  shows "availableCount s' b d = availableCount s b d"
  unfolding availableCount_existing[OF assms(1)] availableCount_existing[OF assms(2)]
  by (simp add: seatOpen_def assms(3,4,5))

lemma setSeats_other_trip:
  "t \<noteq> t0 \<Longrightarrow> map_of (setSeats t0 a ns m) (seatKey t n) = map_of m (seatKey t n)"
  by (rule map_of_setSeats_other) (auto dest: seatKey_trip_inject)

lemma storeInv_trip_ids:
  assumes "storeInv s" and "findTrip s b d = Some t" and "findTrip s b0 d0 = Some t0"
    and "(b, d) \<noteq> (b0, d0)"
  shows "trip_id t \<noteq> trip_id t0"
proof
  assume "trip_id t = trip_id t0"
  with storeInv_findTrip_lookup[OF assms(1,2)] storeInv_findTrip_lookup[OF assms(1,3)]
  have "t = t0" by (metis option.inject)
  with findTrip_matches[OF assms(2)] findTrip_matches[OF assms(3)] assms(4)
  show False by simp
qed

lemma findTrip_update_other:
  assumes inv: "storeInv s" and tr: "findTrip s b d = Some t" and tr0: "findTrip s b0 d0 = Some t0"
    and ne: "(b, d) \<noteq> (b0, d0)"
    and upd: "trips s' = AList.update (trip_id t0) (t0\<lparr>trip_availableSeats := a\<rparr>) (trips s)"
  shows "findTrip s' b d = Some t"
proof -
  let ?Q = "\<lambda>x. trip_busId x = b \<and> trip_date x = d"
  have "\<not> ?Q t0" using findTrip_matches[OF tr0] ne by auto
  then have "\<not> ?Q (t0\<lparr>trip_availableSeats := a\<rparr>)" by simp
  from find_update_other[OF storeInv_findTrip_lookup[OF inv tr0] \<open>\<not> ?Q t0\<close> this]
  show ?thesis using tr by (simp add: findTrip_def values_of_def upd)
qed

lemma drift_createBooking_same:
  assumes inv: "storeInv s"
    and tr: "findTrip s (ib_busId ib) (ib_travelDate ib) = Some t"
    and dist: "distinct seats"
    and free: "\<forall>n \<in> set seats. seatStatus s (ib_busId ib) (ib_travelDate ib) n = [True]"
  shows "availableCount (fst (createBooking s now ib seats)) (ib_busId ib) (ib_travelDate ib) =
           availableCount s (ib_busId ib) (ib_travelDate ib) - int (length seats)"
proof -
  let ?s' = "fst (createBooking s now ib seats)" and ?b = "ib_busId ib" and ?d = "ib_travelDate ib"
  let ?t1 = "t\<lparr>trip_availableSeats := trip_availableSeats t - int (length seats)\<rparr>"
  let ?L = "getBusSeatLayout s ?b"
  have tr1: "trips ?s' = AList.update (trip_id t) ?t1 (trips s)"
    unfolding createBooking_Some[OF tr] by simp
  have ft1: "findTrip ?s' ?b ?d = Some ?t1"
    by (rule storeInv_findTrip_update[OF inv tr tr1])
  have tsa: "tripSeatAvailability ?s' = setSeats (trip_id t) False seats (tripSeatAvailability s)"
    unfolding createBooking_Some[OF tr] by simp
  have op': "seatOpen ?s' (trip_id t) ?b ?d n = (seatOpen s (trip_id t) ?b ?d n \<and> n \<notin> set seats)" for n
    by (auto simp: seatOpen_def tsa map_of_setSeats bookedSeats_createBooking[OF inv])
  have single: "seatCount s ?b n = 1" and opn: "seatOpen s (trip_id t) ?b ?d n" if "n \<in> set seats" for n
    using seatStatus_single[OF tr, of n] free that by simp_all
  have "length (filter (\<lambda>l. sl_seatNumber l \<in> set seats) ?L) = length seats"
    using dist single by (intro count_members) (simp_all add: seatCount_def)
  moreover have "length (filter (\<lambda>l. seatOpen s (trip_id t) ?b ?d (sl_seatNumber l)) ?L) =
      length (filter (\<lambda>l. seatOpen ?s' (trip_id t) ?b ?d (sl_seatNumber l)) ?L)
      + length (filter (\<lambda>l. sl_seatNumber l \<in> set seats) ?L)"
    by (rule count_split) (auto simp: op' opn)
  ultimately show ?thesis
    unfolding availableCount_existing[OF tr] availableCount_existing[OF ft1]
    by (simp add: createBooking_layout)
qed

lemma drift_createBooking_other:
  assumes inv: "storeInv s" and tr: "findTrip s b d = Some t"
    and ne: "(b, d) \<noteq> (ib_busId ib, ib_travelDate ib)"
  shows "findTrip (fst (createBooking s now ib seats)) b d = Some t
    \<and> availableCount (fst (createBooking s now ib seats)) b d = availableCount s b d"
proof -
  let ?s' = "fst (createBooking s now ib seats)"
  have bk: "bookedSeats ?s' b d = bookedSeats s b d"
    using ne by (auto simp: bookedSeats_createBooking[OF inv])
  have lay: "getBusSeatLayout ?s' b = getBusSeatLayout s b"
    by (rule createBooking_layout)
  show ?thesis
  proof (cases "findTrip s (ib_busId ib) (ib_travelDate ib)")
    case None
    have ft: "findTrip ?s' b d = Some t"
      using tr by (simp add: createBooking_None[OF None] findTrip_def bookedStore_def)
    have "tripSeatAvailability ?s' = tripSeatAvailability s"
      by (simp add: createBooking_None[OF None] bookedStore_def)
    then show ?thesis using drift_frame[OF tr ft lay bk] ft by simp
  next
    case (Some t0)
    have tr1: "trips ?s' = AList.update (trip_id t0)
        (t0\<lparr>trip_availableSeats := trip_availableSeats t0 - int (length seats)\<rparr>) (trips s)"
      unfolding createBooking_Some[OF Some] by simp
    have ft: "findTrip ?s' b d = Some t"
      by (rule findTrip_update_other[OF inv tr Some ne tr1])
    have id: "trip_id t \<noteq> trip_id t0"
      by (rule storeInv_trip_ids[OF inv tr Some ne])
    have "tripSeatAvailability ?s' = setSeats (trip_id t0) False seats (tripSeatAvailability s)"
      unfolding createBooking_Some[OF Some] by simp
    then have "map_of (tripSeatAvailability ?s') (seatKey (trip_id t) n) =
        map_of (tripSeatAvailability s) (seatKey (trip_id t) n)" for n
      by (simp add: setSeats_other_trip[OF id])
    then show ?thesis using drift_frame[OF tr ft lay bk] ft by simp
  qed
qed


lemma cancelBooking_layout:
  "getBusSeatLayout (fst (cancelBooking s i)) b = getBusSeatLayout s b"
proof (cases "map_of (bookings s) i")
  case None
  then show ?thesis by (simp add: cancelBooking_missing)
next
  case (Some b0)
  then show ?thesis
    by (cases "findTrip s (bk_busId b0) (bk_travelDate b0)")
       (simp_all add: cancelBooking_None cancelBooking_Some cancelledStore_def getBusSeatLayout_def)
qed

lemma filter_update_drop:
  "map_of m i = Some b0 \<Longrightarrow> \<not> P b0 \<Longrightarrow> \<not> P b' \<Longrightarrow>
   filter P (map snd (AList.update i b' m)) = filter P (map snd m)"
  by (induction m) (auto split: if_splits)

lemma concat_update_drop:
  assumes "map_of m i = Some b0" and "P b0" and "\<not> P b'"
    and "distinct (concat (map g (filter P (map snd m))))"
  shows "set (concat (map g (filter P (map snd (AList.update i b' m))))) =
           set (concat (map g (filter P (map snd m)))) - set (g b0)
       \<and> set (g b0) \<subseteq> set (concat (map g (filter P (map snd m))))
       \<and> distinct (g b0)"
  using assms
proof (induction m)
  case Nil
  then show ?case by simp
next
  case (Cons a m)
  obtain k v where a: "a = (k, v)" by (cases a)
  show ?case
  proof (cases "k = i")
    case True
    with Cons.prems a have "v = b0" by simp
    with True a Cons.prems show ?thesis by auto
  next
    case False
    with Cons.prems a have look: "map_of m i = Some b0" by simp
    have d: "distinct (concat (map g (filter P (map snd m))))"
      using Cons.prems(4) a by (cases "P v") simp_all
    note ih = Cons.IH[OF look Cons.prems(2,3) d]
    show ?thesis
    proof (cases "P v")
      case True
      with Cons.prems(4) a have disj: "set (g v) \<inter> set (concat (map g (filter P (map snd m)))) = {}"
        by simp
      with ih False a True show ?thesis by auto
    next
      case False
      with ih \<open>k \<noteq> i\<close> a show ?thesis by auto
    qed
  qed
qed

lemma storeInv_booking_id:
  "storeInv s \<Longrightarrow> map_of (bookings s) i = Some b0 \<Longrightarrow> bk_id b0 = i"
  by (auto simp: storeInv_def dest!: map_of_SomeD)

lemma bookedSeats_cancel_other:
  assumes bk: "map_of (bookings s) i = Some b0"
    and no: "\<not> (bk_busId b0 = b \<and> bk_travelDate b0 = d \<and> bk_status b0 = ''confirmed'')"
  shows "bookedSeats (fst (cancelBooking s i)) b d = bookedSeats s b d"
proof -
  let ?P = "\<lambda>x. bk_busId x = b \<and> bk_travelDate x = d \<and> bk_status x = ''confirmed''"
  have "\<not> ?P (b0\<lparr>bk_status := ''cancelled''\<rparr>)" by simp
  from filter_update_drop[of "bookings s" i b0 ?P, OF bk no this]
  show ?thesis
    by (simp add: bookedSeats_def values_of_def cancelBooking_bookings[OF bk] detailsOf_def
        cancelBooking_bookingDetails)
qed

lemma bookedSeats_cancel_same:
  assumes inv: "storeInv s" and bk: "map_of (bookings s) i = Some b0"
    and conf: "bk_status b0 = ''confirmed''"
    and dist: "distinct (bookedSeats s (bk_busId b0) (bk_travelDate b0))"
  shows "set (bookedSeats (fst (cancelBooking s i)) (bk_busId b0) (bk_travelDate b0)) =
           set (bookedSeats s (bk_busId b0) (bk_travelDate b0)) - set (map bd_seatNumber (detailsOf s i))
       \<and> set (map bd_seatNumber (detailsOf s i)) \<subseteq> set (bookedSeats s (bk_busId b0) (bk_travelDate b0))
       \<and> distinct (map bd_seatNumber (detailsOf s i))"
proof -
  let ?P = "\<lambda>x. bk_busId x = bk_busId b0 \<and> bk_travelDate x = bk_travelDate b0 \<and> bk_status x = ''confirmed''"
  let ?g = "\<lambda>x. map bd_seatNumber (detailsOf s (bk_id x))"
  have 1: "?P b0" using conf by simp
  have 2: "\<not> ?P (b0\<lparr>bk_status := ''cancelled''\<rparr>)" by simp
  have 3: "distinct (concat (map ?g (filter ?P (map snd (bookings s)))))"
    using dist by (simp add: bookedSeats_def values_of_def)
  have same: "detailsOf (fst (cancelBooking s i)) j = detailsOf s j" for j
    by (simp add: detailsOf_def cancelBooking_bookingDetails)
  from concat_update_drop[of "bookings s" i b0 ?P _ ?g, OF bk 1 2 3]
  show ?thesis
    by (simp add: bookedSeats_def values_of_def cancelBooking_bookings[OF bk] same
        storeInv_booking_id[OF inv bk])
qed

lemma drift_cancelBooking_same:
  assumes inv: "storeInv s" and bk: "map_of (bookings s) i = Some b0"
    and tr: "findTrip s (bk_busId b0) (bk_travelDate b0) = Some t"
    and conf: "bk_status b0 = ''confirmed''"
    and dist: "distinct (bookedSeats s (bk_busId b0) (bk_travelDate b0))"
    and once: "\<forall>x \<in> set (detailsOf s i). seatCount s (bk_busId b0) (bd_seatNumber x) = 1"
  shows "availableCount (fst (cancelBooking s i)) (bk_busId b0) (bk_travelDate b0) =
           availableCount s (bk_busId b0) (bk_travelDate b0) + int (length (detailsOf s i))"
proof -
  let ?s' = "fst (cancelBooking s i)" and ?b = "bk_busId b0" and ?d = "bk_travelDate b0"
  let ?D = "map bd_seatNumber (detailsOf s i)"
  let ?t1 = "t\<lparr>trip_availableSeats := trip_availableSeats t + int (length (detailsOf s (bk_id b0)))\<rparr>"
  let ?L = "getBusSeatLayout s ?b"
  have id: "bk_id b0 = i" by (rule storeInv_booking_id[OF inv bk])
  have tr1: "trips ?s' = AList.update (trip_id t) ?t1 (trips s)"
    unfolding cancelBooking_Some[OF bk tr] by simp
  have ft1: "findTrip ?s' ?b ?d = Some ?t1"
    by (rule storeInv_findTrip_update[OF inv tr tr1])
  have tsa: "tripSeatAvailability ?s' = setSeats (trip_id t) True ?D (tripSeatAvailability s)"
    unfolding cancelBooking_Some[OF bk tr] by (simp add: id)
  note bs = bookedSeats_cancel_same[OF inv bk conf dist]
  have op_in: "seatOpen ?s' (trip_id t) ?b ?d n \<and> \<not> seatOpen s (trip_id t) ?b ?d n" if "n \<in> set ?D" for n
    using that bs by (auto simp: seatOpen_def tsa map_of_setSeats)
  have op_out: "seatOpen ?s' (trip_id t) ?b ?d n = seatOpen s (trip_id t) ?b ?d n" if "n \<notin> set ?D" for n
    using that bs by (auto simp: seatOpen_def tsa map_of_setSeats)
  have "length (filter (\<lambda>l. sl_seatNumber l \<in> set ?D) ?L) = length ?D"
    using bs once by (intro count_members) (auto simp: seatCount_def)
  moreover have "length (filter (\<lambda>l. seatOpen ?s' (trip_id t) ?b ?d (sl_seatNumber l)) ?L) =
      length (filter (\<lambda>l. seatOpen s (trip_id t) ?b ?d (sl_seatNumber l)) ?L)
      + length (filter (\<lambda>l. sl_seatNumber l \<in> set ?D) ?L)"
    by (rule count_split) (use op_in op_out in blast)
  ultimately show ?thesis
    unfolding availableCount_existing[OF tr] availableCount_existing[OF ft1]
    by (simp add: cancelBooking_layout)
qed

lemma drift_cancelBooking_other:
  assumes inv: "storeInv s" and tr: "findTrip s b d = Some t"
    and bk: "map_of (bookings s) i = Some b0"
    and ne: "(b, d) \<noteq> (bk_busId b0, bk_travelDate b0)"
  shows "findTrip (fst (cancelBooking s i)) b d = Some t
    \<and> availableCount (fst (cancelBooking s i)) b d = availableCount s b d"
proof -
  let ?s' = "fst (cancelBooking s i)"
  have bs: "bookedSeats ?s' b d = bookedSeats s b d"
    using ne by (intro bookedSeats_cancel_other[OF bk]) auto
  have lay: "getBusSeatLayout ?s' b = getBusSeatLayout s b"
    by (rule cancelBooking_layout)
  show ?thesis
  proof (cases "findTrip s (bk_busId b0) (bk_travelDate b0)")
    case None
    have ft: "findTrip ?s' b d = Some t"
      using tr by (simp add: cancelBooking_None[OF bk None] findTrip_def cancelledStore_def)
    have "tripSeatAvailability ?s' = tripSeatAvailability s"
      by (simp add: cancelBooking_None[OF bk None] cancelledStore_def)
    then show ?thesis using drift_frame[OF tr ft lay bs] ft by simp
  next
    case (Some t0)
    have tr1: "trips ?s' = AList.update (trip_id t0)
        (t0\<lparr>trip_availableSeats := trip_availableSeats t0 + int (length (detailsOf s (bk_id b0)))\<rparr>)
        (trips s)"
      unfolding cancelBooking_Some[OF bk Some] by simp
    have ft: "findTrip ?s' b d = Some t"
      by (rule findTrip_update_other[OF inv tr Some ne tr1])
    have id: "trip_id t \<noteq> trip_id t0"
      by (rule storeInv_trip_ids[OF inv tr Some ne])
    have "tripSeatAvailability ?s' =
        setSeats (trip_id t0) True (map bd_seatNumber (detailsOf s (bk_id b0))) (tripSeatAvailability s)"
      unfolding cancelBooking_Some[OF bk Some] by simp
    then have "map_of (tripSeatAvailability ?s') (seatKey (trip_id t) n) =
        map_of (tripSeatAvailability s) (seatKey (trip_id t) n)" for n
      by (simp add: setSeats_other_trip[OF id])
    then show ?thesis using drift_frame[OF tr ft lay bs] ft by simp
  qed
qed


lemma find_append_hit:
  "List.find P xs = Some x \<Longrightarrow> List.find P (xs @ ys) = Some x"
  by (induction xs) (auto split: if_splits)

lemma drift_query:
  assumes inv: "storeInv s" and tr: "findTrip s b d = Some t"
  shows "findTrip (fst (getSeatAvailability s b0 d0)) b d = Some t
    \<and> availableCount (fst (getSeatAvailability s b0 d0)) b d = availableCount s b d"
proof (cases "findTrip s b0 d0")
  case (Some t0)
  with tr show ?thesis by (simp add: getSeatAvailability_existing)
next
  case None
  show ?thesis
  proof (cases "getBus s b0")
    case (Inl e)
    with None tr show ?thesis by (simp add: getSeatAvailability_error)
  next
    case (Inr ob)
    show ?thesis
    proof (cases ob)
      case None
      with Inr \<open>findTrip s b0 d0 = None\<close> tr show ?thesis by (simp add: getSeatAvailability_error)
    next
      case (Some bwc)
      with Inr have bus: "getBus s b0 = Inr (Some bwc)" by simp
      let ?s' = "fst (getSeatAvailability s b0 d0)"
      note new = getSeatAvailability_new[OF \<open>findTrip s b0 d0 = None\<close> bus]
      have fresh: "tripIdCounter s \<notin> fst ` set (trips s)"
        using inv by (auto simp: storeInv_def)
      have ft: "findTrip ?s' b d = Some t"
        using tr unfolding new by (simp add: findTrip_def values_of_def update_fresh[OF fresh] find_append_hit)
      have "(trip_id t, t) \<in> set (trips s)"
        using storeInv_findTrip_lookup[OF inv tr] by (rule map_of_SomeD)
      with inv have id: "trip_id t \<noteq> tripIdCounter s" by (auto simp: storeInv_def)
      have tsa: "map_of (tripSeatAvailability ?s') (seatKey (trip_id t) n) =
          map_of (tripSeatAvailability s) (seatKey (trip_id t) n)" for n
        unfolding new by (simp add: setSeats_other_trip[OF id])
      have lay: "getBusSeatLayout ?s' b = getBusSeatLayout s b"
        unfolding new by (simp add: getBusSeatLayout_def)
      have bs: "bookedSeats ?s' b d = bookedSeats s b d"
        unfolding new by (simp add: bookedSeats_def detailsOf_def)
      from drift_frame[OF tr ft lay bs tsa] ft show ?thesis by simp
    qed
  qed
qed

text \<open>One admissible step keeps, for every trip already present, the trip's id and the
  difference between its counter and the number of seats reported available.\<close>

lemma drift_step:
  assumes inv: "storeInv s" and adm: "admissible s x" and tr: "findTrip s b d = Some t"
  shows "\<exists>t'. findTrip (step s x) b d = Some t' \<and> trip_id t' = trip_id t
           \<and> trip_availableSeats t' - availableCount (step s x) b d
               = trip_availableSeats t - availableCount s b d"
proof (cases x)
  case (Query b0 d0)
  with drift_query[OF inv tr, of b0 d0] show ?thesis by simp
next
  case (Book now ib seats)
  show ?thesis
  proof (cases "(b, d) = (ib_busId ib, ib_travelDate ib)")
    case False
    with drift_createBooking_other[OF inv tr, of ib now seats] Book show ?thesis by simp
  next
    case True
    then have tr': "findTrip s (ib_busId ib) (ib_travelDate ib) = Some t" using tr by simp
    from adm Book tr' have dist: "distinct seats"
      and free: "\<forall>n \<in> set seats. seatStatus s (ib_busId ib) (ib_travelDate ib) n = [True]"
      by simp_all
    let ?t1 = "t\<lparr>trip_availableSeats := trip_availableSeats t - int (length seats)\<rparr>"
    have tr1: "trips (fst (createBooking s now ib seats)) = AList.update (trip_id t) ?t1 (trips s)"
      unfolding createBooking_Some[OF tr'] by simp
    have "findTrip (fst (createBooking s now ib seats)) (ib_busId ib) (ib_travelDate ib) = Some ?t1"
      by (rule storeInv_findTrip_update[OF inv tr' tr1])
    with drift_createBooking_same[OF inv tr' dist free, of now] True Book
    show ?thesis by simp
  qed
next
  case (Cancel i)
  show ?thesis
  proof (cases "map_of (bookings s) i")
    case None
    with tr Cancel show ?thesis by (simp add: cancelBooking_missing)
  next
    case (Some b0)
    show ?thesis
    proof (cases "(b, d) = (bk_busId b0, bk_travelDate b0)")
      case False
      with drift_cancelBooking_other[OF inv tr Some] Cancel show ?thesis by simp
    next
      case True
      then have tr': "findTrip s (bk_busId b0) (bk_travelDate b0) = Some t" using tr by simp
      from adm Cancel Some tr' have conf: "bk_status b0 = ''confirmed''"
        and dist: "distinct (bookedSeats s (bk_busId b0) (bk_travelDate b0))"
        and once: "\<forall>x \<in> set (detailsOf s i). seatCount s (bk_busId b0) (bd_seatNumber x) = 1"
        by simp_all
      let ?t1 = "t\<lparr>trip_availableSeats := trip_availableSeats t + int (length (detailsOf s (bk_id b0)))\<rparr>"
      have tr1: "trips (fst (cancelBooking s i)) = AList.update (trip_id t) ?t1 (trips s)"
        unfolding cancelBooking_Some[OF Some tr'] by simp
      have "findTrip (fst (cancelBooking s i)) (bk_busId b0) (bk_travelDate b0) = Some ?t1"
        by (rule storeInv_findTrip_update[OF inv tr' tr1])
      with drift_cancelBooking_same[OF inv Some tr' conf dist once] True Cancel
        storeInv_booking_id[OF inv Some]
      show ?thesis by simp
    qed
  qed
qed

lemma storeInv_step: "storeInv s \<Longrightarrow> storeInv (step s x)"
  by (cases x) (simp_all add: storeInv_getSeatAvailability storeInv_createBooking storeInv_cancelBooking)

lemma storeInv_run: "storeInv s \<Longrightarrow> storeInv (run s xs)"
  by (induction xs arbitrary: s) (simp_all add: storeInv_step)

text \<open>Every store reached from the constructor's store by queries, bookings and cancellations
  is well-formed.\<close>

lemma storeInv_reachable: "storeInv (run newMemStorage xs)"
  by (rule storeInv_run[OF storeInv_newMemStorage])

subsection \<open>What the answer of \<open>createBooking\<close> depends on\<close>

lemma getBookingWithDetails_cong:
  assumes "buses s' = buses s" and "cities s' = cities s" and "bookingDetails s' = bookingDetails s"
  shows "getBookingWithDetails s' b = getBookingWithDetails s b"
proof -
  have g: "getBus s' (bk_busId b) = getBus s (bk_busId b)"
    by (rule getBus_cong[OF assms(1,2)])
  have d: "detailsOf s' (bk_id b) = detailsOf s (bk_id b)"
    by (simp add: detailsOf_def assms(3))
  show ?thesis unfolding getBookingWithDetails_def g d by (rule refl)
qed

lemma createBooking_buses:
  "buses (fst (createBooking s now ib seats)) = buses s"
  "cities (fst (createBooking s now ib seats)) = cities s"
  by (cases "findTrip s (ib_busId ib) (ib_travelDate ib)";
      simp add: createBooking_None createBooking_Some bookedStore_def)+

subsection \<open>The demo store, evaluated\<close>

lemma demoStorage_code [code]:
  "demoStorage =
     \<lparr>cities = [(1, \<lparr>city_id = 1, city_name = ''Bangalore, Karnataka''\<rparr>),
                (2, \<lparr>city_id = 2, city_name = ''Hyderabad, Telangana''\<rparr>)],
      buses = [(1, bus.truncate demoBus)],
      seatLayouts = demoLayouts,
      bookings = [], bookingDetails = [], trips = [], tripSeatAvailability = [],
      cityIdCounter = 3, busIdCounter = 2, seatLayoutIdCounter = 21, bookingIdCounter = 1,
      bookingDetailIdCounter = 1, tripIdCounter = 1\<rparr>"
  by code_simp

lemma demoTrip_code [code]:
  "demoTrip =
     demoStorage
       \<lparr>tripIdCounter := 2,
        trips := [(1, \<lparr>trip_id = 1, trip_busId = 1, trip_date = ''2025-06-01'',
                       trip_availableSeats = 20\<rparr>)],
        tripSeatAvailability := demoSeatMap []\<rparr>"
  by code_simp

lemma demoBooked_code [code]:
  "demoBooked =
     demoTrip
       \<lparr>bookingIdCounter := 2,
        bookings := [(1, mkBooking 1 1000 demoRequest)],
        bookingDetails := [(1, \<lparr>bd_id = 1, bd_bookingId = 1, bd_seatNumber = ''2B''\<rparr>)],
        bookingDetailIdCounter := 2,
        trips := [(1, \<lparr>trip_id = 1, trip_busId = 1, trip_date = ''2025-06-01'',
                       trip_availableSeats = 19\<rparr>)],
        tripSeatAvailability := demoSeatMap [''2B'']\<rparr>"
  by code_simp

lemma demoCancelled_code [code]:
  "demoCancelled =
     demoBooked
       \<lparr>bookings := [(1, (mkBooking 1 1000 demoRequest)\<lparr>bk_status := ''cancelled''\<rparr>)],
        trips := [(1, \<lparr>trip_id = 1, trip_busId = 1, trip_date = ''2025-06-01'',
                       trip_availableSeats = 20\<rparr>)],
        tripSeatAvailability := demoSeatMap []\<rparr>"
  by code_simp

section \<open>Failed trip creation leaves no trace\<close>

text \<open>
  C7.  When an availability query finds no trip for the bus and date and the bus is not in
  the bus table, the query fails with the bus-not-found error and returns the store it was
  given: in particular the trip table and the seat-availability table are unchanged.
\<close>

theorem getSeatAvailability_unknown_bus:
  assumes "findTrip s busId date = None" and "map_of (buses s) busId = None"
  shows "getSeatAvailability s busId date = (s, Inl (BusNotFoundWithId busId))
    \<and> trips (fst (getSeatAvailability s busId date)) = trips s
    \<and> tripSeatAvailability (fst (getSeatAvailability s busId date)) = tripSeatAvailability s"
  using assms by (simp add: getSeatAvailability_def getBus_def)

theorem getSeatAvailability_unknown_bus_witness:
  "getSeatAvailability demoStorage 99 ''2025-06-01'' = (demoStorage, Inl (BusNotFoundWithId 99))
    \<and> trips (fst (getSeatAvailability demoStorage 99 ''2025-06-01'')) = trips demoStorage
    \<and> tripSeatAvailability (fst (getSeatAvailability demoStorage 99 ''2025-06-01''))
        = tripSeatAvailability demoStorage"
proof -
  have h1: "findTrip demoStorage 99 ''2025-06-01'' = None" by code_simp
  have h2: "map_of (buses demoStorage) 99 = None" by code_simp
  show ?thesis by (rule getSeatAvailability_unknown_bus[OF h1 h2])
qed

section \<open>Booking before the trip exists\<close>



section \<open>Cancelling rewrites the status only\<close>

text \<open>
  C9.  When \<open>cancelBooking\<close> returns for a stored booking, the returned booking has status
  \<open>cancelled\<close> and the id, user, bus, travel date, booking date, amount and payment status
  the stored booking had, and its seat list is the list of the booking's detail rows as they
  were before the call.  The stored booking differs from the old one in the status only, no
  other booking id maps to a different row, and the detail table is untouched.
\<close>

theorem cancelBooking_frame:
  assumes "map_of (bookings s) i = Some b" and "cancelBooking s i = (s', Inr r)"
  shows "bk_status r = ''cancelled'' \<and> bk_id r = bk_id b \<and> bk_userId r = bk_userId b
    \<and> bk_busId r = bk_busId b \<and> bk_travelDate r = bk_travelDate b
    \<and> bk_bookingDate r = bk_bookingDate b \<and> bk_totalAmount r = bk_totalAmount b
    \<and> bk_paymentStatus r = bk_paymentStatus b
    \<and> bwd_seats r = map bd_seatNumber (detailsOf s (bk_id b))
    \<and> map_of (bookings s') i = Some (b\<lparr>bk_status := ''cancelled''\<rparr>)
    \<and> (\<forall>j. j \<noteq> i \<longrightarrow> map_of (bookings s') j = map_of (bookings s) j)
    \<and> bookingDetails s' = bookingDetails s"
proof -
  have s': "s' = fst (cancelBooking s i)" and r: "snd (cancelBooking s i) = Inr r"
    using assms(2) by simp_all
  have res: "getBookingWithDetails s' (b\<lparr>bk_status := ''cancelled''\<rparr>) = Inr r"
    using cancelBooking_result[OF assms(1)] r s' by simp
  have d: "bookingDetails s' = bookingDetails s"
    by (simp add: s' cancelBooking_bookingDetails)
  then have dd: "detailsOf s' (bk_id b) = detailsOf s (bk_id b)"
    by (simp add: detailsOf_def)
  have bs: "bookings s' = AList.update i (b\<lparr>bk_status := ''cancelled''\<rparr>) (bookings s)"
    by (simp add: s' cancelBooking_bookings[OF assms(1)])
  from res obtain m where "r = booking.extend (b\<lparr>bk_status := ''cancelled''\<rparr>)
      (bookingWithDetails.fields m (bwc_fromCity m) (bwc_toCity m)
         (map bd_seatNumber (detailsOf s' (bk_id b))))"
    by (auto simp: getBookingWithDetails_def split: sum.splits option.splits)
  with d dd bs show ?thesis by (simp add: update_conv')
qed


theorem cancelBooking_frame_witness:
  "map_of (bookings demoBooked) 1 = Some (mkBooking 1 1000 demoRequest)
   \<and> \<not> isl (snd (cancelBooking demoBooked 1))
   \<and> bk_status (projr (snd (cancelBooking demoBooked 1))) = ''cancelled''
   \<and> bk_userId (projr (snd (cancelBooking demoBooked 1))) = 7
   \<and> bwd_seats (projr (snd (cancelBooking demoBooked 1))) = [''2B'']
   \<and> bookingDetails (fst (cancelBooking demoBooked 1)) = bookingDetails demoBooked"
proof -
  have h1: "map_of (bookings demoBooked) 1 = Some (mkBooking 1 1000 demoRequest)"
    by code_simp
  have ok: "\<not> isl (snd (cancelBooking demoBooked 1))"
    by code_simp
  then have h2: "cancelBooking demoBooked 1 =
      (fst (cancelBooking demoBooked 1), Inr (projr (snd (cancelBooking demoBooked 1))))"
    by (cases "cancelBooking demoBooked 1"; cases "snd (cancelBooking demoBooked 1)") auto
  have seats: "map bd_seatNumber (detailsOf demoBooked 1) = [''2B'']"
    by code_simp
  from cancelBooking_frame[OF h1 h2] h1 ok seats show ?thesis
    by (simp add: mkBooking_def demoRequest_def)
qed

section \<open>Booking a seat that is already booked\<close>

text \<open>
  C1 as stated fails: in the demo store seat 2B is held by the confirmed booking 1, seat 2A is
  reported available and the counter is 19.  Booking the pair 2A, 2B does not fail: it returns
  a booking, a second booking row exists, 2A is reported unavailable and the counter is 17.
\<close>

theorem createBooking_booked_seat_counterexample:
  "''2B'' \<in> set (bookedSeats demoBooked 1 ''2025-06-01'')
   \<and> seatStatus demoBooked 1 ''2025-06-01'' ''2B'' = [False]
   \<and> seatStatus demoBooked 1 ''2025-06-01'' ''2A'' = [True]
   \<and> counters demoBooked = [19]
   \<and> \<not> isl (snd (createBooking demoBooked 2000 demoRequest [''2A'', ''2B'']))
   \<and> map fst (bookings (fst (createBooking demoBooked 2000 demoRequest [''2A'', ''2B'']))) = [1, 2]
   \<and> seatStatus (fst (createBooking demoBooked 2000 demoRequest [''2A'', ''2B''])) 1 ''2025-06-01'' ''2A''
       = [False]
   \<and> counters (fst (createBooking demoBooked 2000 demoRequest [''2A'', ''2B''])) = [17]"
  by code_simp

text \<open>
  C1, amended.  \<open>createBooking\<close> never looks at the state of a seat.  In a well-formed store
  where the trip exists and the bus can be looked up, every request, whether or not a
  requested seat is already booked, succeeds: it returns the new booking with the requested
  seats, stores it under the next booking id, lowers the trip's \<open>availableSeats\<close> by the number
  of requested seats and marks every requested seat unavailable for the trip.
\<close>

theorem createBooking_no_availability_check:
  fixes s :: memStorage and now :: nat and ib :: insertBooking and seats :: "string list"
  defines "s' \<equiv> fst (createBooking s now ib seats)" and "i \<equiv> bookingIdCounter s"
  assumes inv: "storeInv s"
    and trip: "findTrip s (ib_busId ib) (ib_travelDate ib) = Some t"
    and bus: "getBus s (ib_busId ib) = Inr (Some bwc)"
  shows "(\<exists>r. snd (createBooking s now ib seats) = Inr r
            \<and> booking.truncate r = mkBooking i now ib \<and> bwd_seats r = seats)
    \<and> map_of (bookings s') i = Some (mkBooking i now ib)
    \<and> findTrip s' (ib_busId ib) (ib_travelDate ib) =
        Some (t\<lparr>trip_availableSeats := trip_availableSeats t - int (length seats)\<rparr>)
    \<and> (\<forall>n \<in> set seats.
          map_of (tripSeatAvailability s') (seatKey (trip_id t) n) =
            Some \<lparr>tsa_tripId = trip_id t, tsa_seatNumber = n, tsa_isAvailable = False\<rparr>)"
proof -
  have "getBus s' (bk_busId (mkBooking i now ib)) = Inr (Some bwc)"
    unfolding s'_def using bus by (simp add: createBooking_getBus)
  from getBookingWithDetails_ok[OF this]
  have ret: "\<exists>r. snd (createBooking s now ib seats) = Inr r
            \<and> booking.truncate r = mkBooking i now ib \<and> bwd_seats r = seats"
    unfolding createBooking_result s'_def[symmetric] i_def[symmetric]
    using createBooking_detailsOf_new[OF inv, of now ib seats]
    by (simp add: s'_def i_def)
  have stored: "map_of (bookings s') i = Some (mkBooking i now ib)"
    unfolding s'_def i_def by (simp add: createBooking_bookings update_conv')
  have tr: "trips s' = AList.update (trip_id t)
      (t\<lparr>trip_availableSeats := trip_availableSeats t - int (length seats)\<rparr>) (trips s)"
    unfolding s'_def createBooking_Some[OF trip] by simp
  have found: "findTrip s' (ib_busId ib) (ib_travelDate ib) =
        Some (t\<lparr>trip_availableSeats := trip_availableSeats t - int (length seats)\<rparr>)"
    by (rule storeInv_findTrip_update[OF inv trip tr])
  have tsa: "tripSeatAvailability s' = setSeats (trip_id t) False seats (tripSeatAvailability s)"
    unfolding s'_def createBooking_Some[OF trip] by simp
  have marked: "\<forall>n \<in> set seats.
          map_of (tripSeatAvailability s') (seatKey (trip_id t) n) =
            Some \<lparr>tsa_tripId = trip_id t, tsa_seatNumber = n, tsa_isAvailable = False\<rparr>"
    by (simp add: tsa map_of_setSeats)
  from ret stored found marked show ?thesis by blast
qed

theorem createBooking_no_availability_check_witness:
  "storeInv demoBooked
   \<and> ''2B'' \<in> set (bookedSeats demoBooked 1 ''2025-06-01'')
   \<and> \<not> isl (snd (createBooking demoBooked 2000 demoRequest [''2A'', ''2B'']))
   \<and> bwd_seats (projr (snd (createBooking demoBooked 2000 demoRequest [''2A'', ''2B'']))) = [''2A'', ''2B'']
   \<and> findTrip (fst (createBooking demoBooked 2000 demoRequest [''2A'', ''2B''])) 1 ''2025-06-01'' =
       Some \<lparr>trip_id = 1, trip_busId = 1, trip_date = ''2025-06-01'', trip_availableSeats = 17\<rparr>
   \<and> map_of (tripSeatAvailability (fst (createBooking demoBooked 2000 demoRequest [''2A'', ''2B''])))
        (seatKey 1 ''2A'') =
       Some \<lparr>tsa_tripId = 1, tsa_seatNumber = ''2A'', tsa_isAvailable = False\<rparr>"
proof -
  have h1: "storeInv demoBooked" by code_simp
  have h2: "findTrip demoBooked (ib_busId demoRequest) (ib_travelDate demoRequest) =
      Some \<lparr>trip_id = 1, trip_busId = 1, trip_date = ''2025-06-01'', trip_availableSeats = 19\<rparr>"
    by code_simp
  have h3: "getBus demoBooked (ib_busId demoRequest) = Inr (Some demoBus)" by code_simp
  have h4: "''2B'' \<in> set (bookedSeats demoBooked 1 ''2025-06-01'')" by code_simp
  note t = createBooking_no_availability_check[OF h1 h2 h3, of 2000 "[''2A'', ''2B'']"]
  from t obtain r where
    r: "snd (createBooking demoBooked 2000 demoRequest [''2A'', ''2B'']) = Inr r"
       "bwd_seats r = [''2A'', ''2B'']"
    by blast
  from t h1 h4 r show ?thesis by (simp add: demoRequest_def)
qed

section \<open>Empty and duplicate seat lists\<close>

text \<open>
  C3 as stated fails: on the demo store a request with the empty seat list returns a booking
  and stores it, and a request naming seat 1A twice returns a booking and stores two detail
  rows for 1A.
\<close>

theorem createBooking_invalid_list_counterexample:
  "\<not> isl (snd (createBooking demoStorage 1000 demoRequest []))
   \<and> map_of (bookings (fst (createBooking demoStorage 1000 demoRequest []))) 1
       = Some (mkBooking 1 1000 demoRequest)
   \<and> \<not> isl (snd (createBooking demoStorage 1000 demoRequest [''1A'', ''1A'']))
   \<and> map_of (bookings (fst (createBooking demoStorage 1000 demoRequest [''1A'', ''1A'']))) 1
       = Some (mkBooking 1 1000 demoRequest)
   \<and> map bd_seatNumber (values_of (bookingDetails
        (fst (createBooking demoStorage 1000 demoRequest [''1A'', ''1A''])))) = [''1A'', ''1A'']"
  by code_simp

text \<open>
  C3, amended.  \<open>createBooking\<close> does not inspect the seat list.  For every seat list, the empty
  one and those with repeated seat numbers included, if the bus of the request can be looked
  up then the call returns the new booking, the booking is stored under the next booking id,
  and one detail row is stored per list element, in order, under consecutive detail ids.
\<close>

theorem createBooking_no_validation:
  fixes s :: memStorage and now :: nat and ib :: insertBooking and seats :: "string list"
  defines "s' \<equiv> fst (createBooking s now ib seats)" and "i \<equiv> bookingIdCounter s"
  assumes bus: "getBus s (ib_busId ib) = Inr (Some bwc)"
  shows "(\<exists>r. snd (createBooking s now ib seats) = Inr r \<and> booking.truncate r = mkBooking i now ib)
    \<and> map_of (bookings s') i = Some (mkBooking i now ib)
    \<and> bookingDetailIdCounter s' = bookingDetailIdCounter s + length seats
    \<and> (\<forall>k < length seats.
          map_of (bookingDetails s') (bookingDetailIdCounter s + k) =
            Some \<lparr>bd_id = bookingDetailIdCounter s + k, bd_bookingId = i, bd_seatNumber = seats ! k\<rparr>)"
proof -
  have "getBus s' (bk_busId (mkBooking i now ib)) = Inr (Some bwc)"
    unfolding s'_def using bus by (simp add: createBooking_getBus)
  from getBookingWithDetails_ok[OF this]
  have ret: "\<exists>r. snd (createBooking s now ib seats) = Inr r \<and> booking.truncate r = mkBooking i now ib"
    unfolding createBooking_result s'_def[symmetric] i_def[symmetric] by simp
  have stored: "map_of (bookings s') i = Some (mkBooking i now ib)"
    unfolding s'_def i_def by (simp add: createBooking_bookings update_conv')
  have cnt: "bookingDetailIdCounter s' = bookingDetailIdCounter s + length seats"
    unfolding s'_def
    by (cases "findTrip s (ib_busId ib) (ib_travelDate ib)")
       (simp_all add: createBooking_None createBooking_Some bookedStore_def)
  have details: "\<forall>k < length seats.
          map_of (bookingDetails s') (bookingDetailIdCounter s + k) =
            Some \<lparr>bd_id = bookingDetailIdCounter s + k, bd_bookingId = i, bd_seatNumber = seats ! k\<rparr>"
    unfolding s'_def i_def by (simp add: createBooking_bookingDetails map_of_addDetails_new)
  from ret stored cnt details show ?thesis by blast
qed

theorem createBooking_no_validation_witness:
  "getBus demoStorage (ib_busId demoRequest) = Inr (Some demoBus)
   \<and> \<not> isl (snd (createBooking demoStorage 1000 demoRequest [''1A'', ''1A'']))
   \<and> map_of (bookings (fst (createBooking demoStorage 1000 demoRequest [''1A'', ''1A''])))
        (bookingIdCounter demoStorage) = Some (mkBooking (bookingIdCounter demoStorage) 1000 demoRequest)
   \<and> map_of (bookingDetails (fst (createBooking demoStorage 1000 demoRequest [''1A'', ''1A''])))
        (bookingDetailIdCounter demoStorage + 1) =
       Some \<lparr>bd_id = bookingDetailIdCounter demoStorage + 1, bd_bookingId = bookingIdCounter demoStorage,
             bd_seatNumber = ''1A''\<rparr>"
proof -
  have h: "getBus demoStorage (ib_busId demoRequest) = Inr (Some demoBus)" by code_simp
  note t = createBooking_no_validation[OF h, of 1000 "[''1A'', ''1A'']"]
  from t obtain r where
    r: "snd (createBooking demoStorage 1000 demoRequest [''1A'', ''1A'']) = Inr r"
    by blast
  from t have d: "\<forall>k < length [''1A'', ''1A''].
      map_of (bookingDetails (fst (createBooking demoStorage 1000 demoRequest [''1A'', ''1A''])))
        (bookingDetailIdCounter demoStorage + k) =
       Some \<lparr>bd_id = bookingDetailIdCounter demoStorage + k, bd_bookingId = bookingIdCounter demoStorage,
             bd_seatNumber = [''1A'', ''1A''] ! k\<rparr>"
    by blast
  from d[rule_format, of 1] have d1:
    "map_of (bookingDetails (fst (createBooking demoStorage 1000 demoRequest [''1A'', ''1A''])))
        (bookingDetailIdCounter demoStorage + 1) =
       Some \<lparr>bd_id = bookingDetailIdCounter demoStorage + 1, bd_bookingId = bookingIdCounter demoStorage,
             bd_seatNumber = ''1A''\<rparr>"
    by simp
  from t h r d1 show ?thesis by simp
qed

section \<open>Cancelling an unknown or an already cancelled booking\<close>

text \<open>
  C4 as stated fails in its second half: in the demo store booking 1 is already cancelled and
  the counter is back at 20; cancelling booking 1 once more does not fail, and the counter
  becomes 21.
\<close>

theorem cancelBooking_twice_counterexample:
  "map bk_status (values_of (bookings demoCancelled)) = [''cancelled'']
   \<and> counters demoCancelled = [20]
   \<and> \<not> isl (snd (cancelBooking demoCancelled 1))
   \<and> counters (fst (cancelBooking demoCancelled 1)) = [21]"
  by code_simp

text \<open>
  C4, amended.  \<open>cancelBooking\<close> fails with the booking-not-found error, returning the store it
  was given, when no booking has the id.  It does not look at the status: for a booking whose
  status is already \<open>cancelled\<close>, in a well-formed store where the trip exists, the stored
  booking stays as it is, the call returns it if the bus can be looked up, the trip's
  \<open>availableSeats\<close> grows again by the number of the booking's detail rows, and every seat of
  those rows is marked available for the trip.
\<close>

theorem cancelBooking_status_unchecked:
  fixes s :: memStorage and i :: nat
  defines "s' \<equiv> fst (cancelBooking s i)"
  shows "(map_of (bookings s) i = None \<longrightarrow> cancelBooking s i = (s, Inl (BookingNotFoundWithId i)))
    \<and> (\<forall>b t. storeInv s \<and> map_of (bookings s) i = Some b \<and> bk_status b = ''cancelled''
            \<and> findTrip s (bk_busId b) (bk_travelDate b) = Some t \<longrightarrow>
          map_of (bookings s') i = Some b
          \<and> (\<forall>bwc. getBus s (bk_busId b) = Inr (Some bwc) \<longrightarrow>
                (\<exists>r. snd (cancelBooking s i) = Inr r \<and> booking.truncate r = b))
          \<and> findTrip s' (bk_busId b) (bk_travelDate b) =
              Some (t\<lparr>trip_availableSeats :=
                        trip_availableSeats t + int (length (detailsOf s (bk_id b)))\<rparr>)
          \<and> (\<forall>d \<in> set (detailsOf s (bk_id b)).
                map_of (tripSeatAvailability s') (seatKey (trip_id t) (bd_seatNumber d)) =
                  Some \<lparr>tsa_tripId = trip_id t, tsa_seatNumber = bd_seatNumber d,
                        tsa_isAvailable = True\<rparr>))"
proof (intro conjI allI impI)
  assume "map_of (bookings s) i = None"
  then show "cancelBooking s i = (s, Inl (BookingNotFoundWithId i))"
    by (rule cancelBooking_missing)
next
  fix b t
  assume a: "storeInv s \<and> map_of (bookings s) i = Some b \<and> bk_status b = ''cancelled''
            \<and> findTrip s (bk_busId b) (bk_travelDate b) = Some t"
  then have inv: "storeInv s" and b: "map_of (bookings s) i = Some b"
    and st: "bk_status b = ''cancelled''"
    and trip: "findTrip s (bk_busId b) (bk_travelDate b) = Some t" by simp_all
  have same: "b\<lparr>bk_status := ''cancelled''\<rparr> = b" using st by (cases b) simp
  show "map_of (bookings s') i = Some b"
    unfolding s'_def by (simp add: cancelBooking_bookings[OF b] update_conv' same)
  have tr: "trips s' = AList.update (trip_id t)
      (t\<lparr>trip_availableSeats := trip_availableSeats t + int (length (detailsOf s (bk_id b)))\<rparr>)
      (trips s)"
    unfolding s'_def cancelBooking_Some[OF b trip] by simp
  show "findTrip s' (bk_busId b) (bk_travelDate b) =
              Some (t\<lparr>trip_availableSeats :=
                        trip_availableSeats t + int (length (detailsOf s (bk_id b)))\<rparr>)"
    by (rule storeInv_findTrip_update[OF inv trip tr])
  have tsa: "tripSeatAvailability s' =
      setSeats (trip_id t) True (map bd_seatNumber (detailsOf s (bk_id b))) (tripSeatAvailability s)"
    unfolding s'_def cancelBooking_Some[OF b trip] by simp
  show "\<forall>d \<in> set (detailsOf s (bk_id b)).
                map_of (tripSeatAvailability s') (seatKey (trip_id t) (bd_seatNumber d)) =
                  Some \<lparr>tsa_tripId = trip_id t, tsa_seatNumber = bd_seatNumber d,
                        tsa_isAvailable = True\<rparr>"
    by (simp add: tsa map_of_setSeats)
  fix bwc
  assume "getBus s (bk_busId b) = Inr (Some bwc)"
  then have "getBus s' (bk_busId (b\<lparr>bk_status := ''cancelled''\<rparr>)) = Inr (Some bwc)"
    unfolding s'_def by (simp add: cancelBooking_getBus)
  from getBookingWithDetails_ok[OF this]
  show "\<exists>r. snd (cancelBooking s i) = Inr r \<and> booking.truncate r = b"
    unfolding cancelBooking_result[OF b] s'_def[symmetric] by (simp add: same)
qed



theorem cancelBooking_status_unchecked_witness:
  "map_of (bookings demoCancelled) 99 = None
   \<and> cancelBooking demoCancelled 99 = (demoCancelled, Inl (BookingNotFoundWithId 99))
   \<and> storeInv demoCancelled
   \<and> map_of (bookings demoCancelled) 1 = Some ((mkBooking 1 1000 demoRequest)\<lparr>bk_status := ''cancelled''\<rparr>)
   \<and> \<not> isl (snd (cancelBooking demoCancelled 1))
   \<and> findTrip (fst (cancelBooking demoCancelled 1)) 1 ''2025-06-01'' =
       Some \<lparr>trip_id = 1, trip_busId = 1, trip_date = ''2025-06-01'', trip_availableSeats = 21\<rparr>"
proof -
  let ?b = "(mkBooking 1 1000 demoRequest)\<lparr>bk_status := ''cancelled''\<rparr>"
  let ?t = "\<lparr>trip_id = 1, trip_busId = 1, trip_date = ''2025-06-01'', trip_availableSeats = 20\<rparr>"
  have h0: "map_of (bookings demoCancelled) 99 = None" by code_simp
  have h1: "storeInv demoCancelled" by code_simp
  have h2: "map_of (bookings demoCancelled) 1 = Some ?b" by code_simp
  have h3: "bk_status ?b = ''cancelled''" by simp
  have h4: "findTrip demoCancelled (bk_busId ?b) (bk_travelDate ?b) = Some ?t" by code_simp
  have h5: "getBus demoCancelled (bk_busId ?b) = Inr (Some demoBus)" by code_simp
  have h6: "length (detailsOf demoCancelled (bk_id ?b)) = 1" by code_simp
  from cancelBooking_status_unchecked[of demoCancelled 99] h0
  have a: "cancelBooking demoCancelled 99 = (demoCancelled, Inl (BookingNotFoundWithId 99))"
    by blast
  from cancelBooking_status_unchecked[of demoCancelled 1] h1 h2 h3 h4
  have b: "\<forall>bwc. getBus demoCancelled (bk_busId ?b) = Inr (Some bwc) \<longrightarrow>
                (\<exists>r. snd (cancelBooking demoCancelled 1) = Inr r \<and> booking.truncate r = ?b)"
    and c: "findTrip (fst (cancelBooking demoCancelled 1)) (bk_busId ?b) (bk_travelDate ?b) =
       Some (?t\<lparr>trip_availableSeats :=
                  trip_availableSeats ?t + int (length (detailsOf demoCancelled (bk_id ?b)))\<rparr>)"
    by blast+
  from b h5 obtain r where r: "snd (cancelBooking demoCancelled 1) = Inr r" by blast
  from c h6 have c': "findTrip (fst (cancelBooking demoCancelled 1)) 1 ''2025-06-01'' =
       Some \<lparr>trip_id = 1, trip_busId = 1, trip_date = ''2025-06-01'', trip_availableSeats = 21\<rparr>"
    by (simp add: demoRequest_def)
  from h0 a h1 h2 r c' show ?thesis by simp
qed

section \<open>Lazy trip creation\<close>




section \<open>Booking and cancelling one seat\<close>

text \<open>
  C5.  In a well-formed store with a trip for the bus and date, if seat \<open>n\<close> is reported
  available, \<open>createBooking\<close> for that seat on that bus and date returns a booking, and that
  booking's id is cancelled, then afterwards every entry the availability query reports for
  seat \<open>n\<close> is available (and there is one), the trip found for the bus and date is the trip
  found before the booking, with the same \<open>availableSeats\<close>, and the whole trip table is
  as it was.
\<close>

theorem booking_cancel_roundtrip:
  fixes s :: memStorage
  assumes inv: "storeInv s"
    and trip: "findTrip s busId date = Some t"
    and avail: "True \<in> set (seatStatus s busId date n)"
    and req: "ib_busId ib = busId" "ib_travelDate ib = date"
    and booked: "createBooking s now ib [n] = (s1, Inr r)"
    and cancelled: "cancelBooking s1 (bk_id r) = (s2, res)"
  shows "set (seatStatus s2 busId date n) = {True}
    \<and> findTrip s2 busId date = Some t
    \<and> trips s2 = trips s
    \<and> counters s2 = counters s"
proof -
  let ?i = "bookingIdCounter s"
  let ?b = "mkBooking ?i now ib"
  let ?b' = "?b\<lparr>bk_status := ''cancelled''\<rparr>"
  let ?t1 = "t\<lparr>trip_availableSeats := trip_availableSeats t - int (length [n])\<rparr>"
  have trip': "findTrip s (ib_busId ib) (ib_travelDate ib) = Some t"
    using trip req by simp
  have s1: "s1 = fst (createBooking s now ib [n])" and r: "snd (createBooking s now ib [n]) = Inr r"
    using booked by simp_all
  have "getBookingWithDetails s1 ?b = Inr r"
    using r by (simp add: createBooking_result s1)
  then have id: "bk_id r = ?i"
    using getBookingWithDetails_truncate[of s1 ?b r] by (cases r) (simp add: booking.truncate_def mkBooking_def)
  have s2: "s2 = fst (cancelBooking s1 ?i)"
    using cancelled id by simp
  have b1: "map_of (bookings s1) ?i = Some ?b"
    by (simp add: s1 createBooking_bookings update_conv')
  have tr1: "trips s1 = AList.update (trip_id t) ?t1 (trips s)"
    unfolding s1 createBooking_Some[OF trip'] by simp
  have tsa1: "tripSeatAvailability s1 = setSeats (trip_id t) False [n] (tripSeatAvailability s)"
    unfolding s1 createBooking_Some[OF trip'] by simp
  have ft1: "findTrip s1 (bk_busId ?b) (bk_travelDate ?b) = Some ?t1"
    using storeInv_findTrip_update[OF inv trip' tr1] by simp
  have d1: "map bd_seatNumber (detailsOf s1 ?i) = [n]"
    using createBooking_detailsOf_new[OF inv, of now ib "[n]"] by (simp add: s1)
  then have len: "length (detailsOf s1 ?i) = 1"
    by (metis length_map length_Cons list.size(3) One_nat_def)
  note c = cancelBooking_Some[OF b1 ft1, folded s2]
  have look: "map_of (trips s) (trip_id t) = Some t"
    by (rule storeInv_findTrip_lookup[OF inv trip])
  have restored: "t\<lparr>trip_availableSeats := trip_availableSeats t\<rparr> = t"
    by (cases t) simp
  have tr2: "trips s2 = trips s"
    unfolding c by (simp add: tr1 len restored update_triv[OF look])
  have ft2: "findTrip s2 busId date = Some t"
    using trip by (simp add: findTrip_def tr2)
  have tsa2: "map_of (tripSeatAvailability s2) (seatKey (trip_id t) n) =
      Some \<lparr>tsa_tripId = trip_id t, tsa_seatNumber = n, tsa_isAvailable = True\<rparr>"
    unfolding c by (simp add: d1 update_conv')
  have lay: "getBusSeatLayout s2 busId = getBusSeatLayout s busId"
    unfolding c s1 createBooking_Some[OF trip']
    by (simp add: getBusSeatLayout_def cancelledStore_def bookedStore_def)
  have bs2: "bookings s2 = bookings s @ [(?i, ?b')]"
    unfolding c
    by (simp add: cancelledStore_def s1 createBooking_bookings
          update_fresh[OF storeInv_bookings_fresh[OF inv]]
          update_append_fresh[OF storeInv_bookings_fresh[OF inv]])
  have ds2: "bookingDetails s2 = bookingDetails s @ newDetails ?i (bookingDetailIdCounter s) [n]"
    unfolding c by (simp add: cancelledStore_def s1 createBooking_details_inv[OF inv])
  have bk2: "bookedSeats s2 busId date = bookedSeats s busId date"
    by (rule bookedSeats_append[OF inv bs2 ds2]) simp
  from avail have free: "n \<notin> set (bookedSeats s busId date)"
    and some: "filter (\<lambda>l. sl_seatNumber l = n) (getBusSeatLayout s busId) \<noteq> []"
    unfolding seatStatus_existing[OF trip] by (auto simp: filter_empty_conv)
  have "seatStatus s2 busId date n =
      map (\<lambda>l. True) (filter (\<lambda>l. sl_seatNumber l = n) (getBusSeatLayout s busId))"
    unfolding seatStatus_existing[OF ft2] by (simp add: tsa2 bk2 free lay)
  with some have st: "set (seatStatus s2 busId date n) = {True}"
    by (cases "filter (\<lambda>l. sl_seatNumber l = n) (getBusSeatLayout s busId)") auto
  from st ft2 tr2 show ?thesis by (simp add: counters_def)
qed


theorem booking_cancel_roundtrip_witness:
  "storeInv demoTrip
   \<and> True \<in> set (seatStatus demoTrip 1 ''2025-06-01'' ''1A'')
   \<and> \<not> isl (snd (createBooking demoTrip 1000 demoRequest [''1A'']))
   \<and> set (seatStatus
        (fst (cancelBooking (fst (createBooking demoTrip 1000 demoRequest [''1A'']))
               (bk_id (projr (snd (createBooking demoTrip 1000 demoRequest [''1A'']))))))
        1 ''2025-06-01'' ''1A'') = {True}
   \<and> counters
        (fst (cancelBooking (fst (createBooking demoTrip 1000 demoRequest [''1A'']))
               (bk_id (projr (snd (createBooking demoTrip 1000 demoRequest [''1A'']))))))
       = counters demoTrip"
proof -
  let ?c = "createBooking demoTrip 1000 demoRequest [''1A'']"
  let ?x = "cancelBooking (fst ?c) (bk_id (projr (snd ?c)))"
  have h1: "storeInv demoTrip" by code_simp
  have h2: "findTrip demoTrip 1 ''2025-06-01'' =
      Some \<lparr>trip_id = 1, trip_busId = 1, trip_date = ''2025-06-01'', trip_availableSeats = 20\<rparr>"
    by code_simp
  have h3: "True \<in> set (seatStatus demoTrip 1 ''2025-06-01'' ''1A'')" by code_simp
  have h4: "ib_busId demoRequest = 1" and h5: "ib_travelDate demoRequest = ''2025-06-01''"
    by (simp_all add: demoRequest_def)
  have ok: "\<not> isl (snd ?c)" by code_simp
  then have h6: "?c = (fst ?c, Inr (projr (snd ?c)))"
    by (cases ?c; cases "snd ?c") auto
  have h7: "?x = (fst ?x, snd ?x)" by simp
  from booking_cancel_roundtrip[OF h1 h2 h3 h4 h5 h6 h7] h1 h3 ok show ?thesis by simp
qed

section \<open>The counter and the number of available seats\<close>

lemma seeded_query:
  "(let s = run newMemStorage [Query 1 ''2025-06-01'']
    in (counters s, availableCount s 1 ''2025-06-01'')) = ([30], 20)"
  by code_simp

lemma seeded_counter:
  "counters (run newMemStorage [Query 1 ''2025-06-01'']) = [30]"
  using seeded_query by (simp add: Let_def)

lemma seeded_available:
  "availableCount (run newMemStorage [Query 1 ''2025-06-01'']) 1 ''2025-06-01'' = 20"
  using seeded_query by (simp add: Let_def)

lemma double_booking_counter:
  "counters (run demoTrip [Book 1000 demoRequest [''2B''], Book 2000 demoRequest [''2A'', ''2B'']]) = [17]"
  by code_simp

lemma double_booking_available:
  "availableCount (run demoTrip [Book 1000 demoRequest [''2B''], Book 2000 demoRequest [''2A'', ''2B'']])
     1 ''2025-06-01'' = 18"
  by code_simp

text \<open>
  C2 as stated fails.  On the store the constructor builds, one availability query for bus 1
  creates a trip whose counter is the bus's \<open>totalSeats\<close>, 30, while the default layout has 20
  seats, all reported available.  On the demo store, where both numbers are 20, booking 2B and
  then 2A with 2B leaves the counter at 17 with 18 seats reported available.
\<close>

theorem counter_consistency_counterexample:
  "counters (run newMemStorage [Query 1 ''2025-06-01'']) = [30]
   \<and> availableCount (run newMemStorage [Query 1 ''2025-06-01'']) 1 ''2025-06-01'' = 20
   \<and> counters (run demoTrip [Book 1000 demoRequest [''2B''], Book 2000 demoRequest [''2A'', ''2B'']]) = [17]
   \<and> availableCount (run demoTrip [Book 1000 demoRequest [''2B''], Book 2000 demoRequest [''2A'', ''2B'']])
        1 ''2025-06-01'' = 18"
  using seeded_counter seeded_available double_booking_counter double_booking_available by simp

text \<open>
  C2, amended.  The counter is moved by arithmetic, not derived from the seat states.  In a
  well-formed store, along every sequence of availability queries, bookings and cancellations
  whose steps are admissible, every trip present at the start is still found for its bus and
  date, under the same id, and the difference between its \<open>availableSeats\<close> and the number of
  seats reported available is what it was at the start.  So the two numbers agree afterwards
  exactly when they agreed before.
\<close>

theorem counter_drift_preserved:
  assumes "storeInv s" and "admissibleRun s ops" and "findTrip s busId date = Some t"
  shows "\<exists>t'. findTrip (run s ops) busId date = Some t' \<and> trip_id t' = trip_id t
           \<and> trip_availableSeats t' - availableCount (run s ops) busId date
               = trip_availableSeats t - availableCount s busId date"
  using assms
proof (induction ops arbitrary: s t)
  case Nil
  then show ?case by simp
next
  case (Cons x xs)
  from Cons.prems have adm: "admissible s x" and rest: "admissibleRun (step s x) xs" by simp_all
  from drift_step[OF Cons.prems(1) adm Cons.prems(3)] obtain t1 where
    t1: "findTrip (step s x) busId date = Some t1" "trip_id t1 = trip_id t"
        "trip_availableSeats t1 - availableCount (step s x) busId date
           = trip_availableSeats t - availableCount s busId date"
    by blast
  from Cons.IH[OF storeInv_step[OF Cons.prems(1)] rest t1(1)] t1(2,3)
  show ?case by auto
qed


theorem counter_drift_preserved_witness:
  "storeInv demoTrip
   \<and> admissibleRun demoTrip
        [Book 1000 demoRequest [''2B''], Cancel 1, Book 2000 demoRequest [''1A'', ''2A'']]
   \<and> findTrip demoTrip 1 ''2025-06-01'' =
        Some \<lparr>trip_id = 1, trip_busId = 1, trip_date = ''2025-06-01'', trip_availableSeats = 20\<rparr>
   \<and> availableCount demoTrip 1 ''2025-06-01'' = 20
   \<and> findTrip (run demoTrip
        [Book 1000 demoRequest [''2B''], Cancel 1, Book 2000 demoRequest [''1A'', ''2A'']])
        1 ''2025-06-01'' =
        Some \<lparr>trip_id = 1, trip_busId = 1, trip_date = ''2025-06-01'', trip_availableSeats = 18\<rparr>
   \<and> availableCount (run demoTrip
        [Book 1000 demoRequest [''2B''], Cancel 1, Book 2000 demoRequest [''1A'', ''2A'']])
        1 ''2025-06-01'' = 18"
proof -
  let ?ops = "[Book 1000 demoRequest [''2B''], Cancel 1, Book 2000 demoRequest [''1A'', ''2A'']]"
  have h1: "storeInv demoTrip" by code_simp
  have h2: "admissibleRun demoTrip ?ops" by code_simp
  have h3: "findTrip demoTrip 1 ''2025-06-01'' =
      Some \<lparr>trip_id = 1, trip_busId = 1, trip_date = ''2025-06-01'', trip_availableSeats = 20\<rparr>"
    by code_simp
  have h4: "availableCount demoTrip 1 ''2025-06-01'' = 20" by code_simp
  have h5: "findTrip (run demoTrip ?ops) 1 ''2025-06-01'' =
      Some \<lparr>trip_id = 1, trip_busId = 1, trip_date = ''2025-06-01'', trip_availableSeats = 18\<rparr>"
    by code_simp
  from counter_drift_preserved[OF h1 h2 h3] h4 h5
  have "availableCount (run demoTrip ?ops) 1 ''2025-06-01'' = 18" by auto
  with h1 h2 h3 h4 h5 show ?thesis by simp
qed

section \<open>Holds\<close>

text \<open>
  C8.  The storage layer has no hold: \<open>IStorage\<close> and \<open>MemStorage\<close> declare no \<open>holdSeat\<close> or
  \<open>releaseSeat\<close>, and a seat has no state besides its availability entry and the bookings that
  name it.  Whatever is written into the trip table and the seat-availability map, the answer
  of \<open>createBooking\<close> is the same: no seat state can block a booking.
\<close>

theorem createBooking_ignores_seat_state:
  "snd (createBooking (s\<lparr>trips := ts, tripSeatAvailability := m\<rparr>) now ib seats) =
   snd (createBooking s now ib seats)"
  unfolding createBooking_result
  by (rule getBookingWithDetails_cong[THEN trans])
     (simp_all add: createBooking_buses createBooking_bookingDetails)


end
